theory Spec2Isabelle
  imports Complex_Main "HOL-Library.Sublist" "HOL-Library.Log_Nat"
begin

section \<open>Exceptions\<close>

text \<open>
  Python exceptions are values. An exception carries its class, its message and the
  exception it was raised \<^verbatim>\<open>from\<close> (its cause). \<^verbatim>\<open>except RuntimeError\<close> catches the
  instances of \<^verbatim>\<open>RuntimeError\<close> and of its subclasses, and nothing else.
\<close>

datatype exc_class =
    RuntimeError
  | RuntimeError_subclass string
  | IndexError
  | Other_class string

datatype exn = Exn (exn_class: exc_class) (message: string) (cause: "exn option")

fun isinstance_RuntimeError :: "exn \<Rightarrow> bool" where
  "isinstance_RuntimeError (Exn RuntimeError _ _) = True"
| "isinstance_RuntimeError (Exn (RuntimeError_subclass _) _ _) = True"
| "isinstance_RuntimeError (Exn IndexError _ _) = False"
| "isinstance_RuntimeError (Exn (Other_class _) _ _) = False"

definition runtime_error :: "string \<Rightarrow> exn" where
  "runtime_error m = Exn RuntimeError m None"

definition index_error :: "string \<Rightarrow> exn" where
  "index_error m = Exn IndexError m None"

text \<open>A computation that may raise: \<open>Inl\<close> is the exception, \<open>Inr\<close> the value.\<close>

definition bind_result :: "exn + 'a \<Rightarrow> ('a \<Rightarrow> exn + 'b) \<Rightarrow> exn + 'b" where
  "bind_result m f = (case m of Inl e \<Rightarrow> Inl e | Inr v \<Rightarrow> f v)"

text \<open>
  A computation that may raise and that reads and writes state owned elsewhere (the
  layers' running statistics, the random source of dropout, the device).
\<close>

type_synonym ('s, 'a) prog = "'s \<Rightarrow> (exn + 'a) \<times> 's"

definition bind_prog :: "('s, 'a) prog \<Rightarrow> ('a \<Rightarrow> ('s, 'b) prog) \<Rightarrow> ('s, 'b) prog" where
  "bind_prog m f s = (case m s of (Inl e, s') \<Rightarrow> (Inl e, s') | (Inr v, s') \<Rightarrow> f v s')"

definition lift_result :: "exn + 'a \<Rightarrow> ('s, 'a) prog" where
  "lift_result m s = (m, s)"

section \<open>The driver-fault wrapper\<close>

text \<open>
  \<^verbatim>\<open>_add_cuda_warning(func)\<close>. The classifier \<^verbatim>\<open>is_cudnn_error\<close> lives in
  \<^verbatim>\<open>pykeen.utils\<close> and is a parameter here; it is given the state so that a
  consultation is observable.
\<close>

definition cuda_warning_message :: string where
  "cuda_warning_message =
     [CHR 0x0A] @ ''This code crash might have been caused by a CUDA bug, see '' @
     ''https://github.com/allenai/allennlp/issues/2888, '' @
     ''which causes the code to crash during evaluation mode.'' @ [CHR 0x0A] @
     ''To avoid this error, the batch size has to be reduced.''"

definition add_cuda_warning ::
  "(exn \<Rightarrow> 's \<Rightarrow> bool \<times> 's) \<Rightarrow> ('x \<Rightarrow> ('s, 'a) prog) \<Rightarrow> 'x \<Rightarrow> ('s, 'a) prog" where
  "add_cuda_warning is_cudnn_error func args s =
     (case func args s of
        (Inr v, s1) \<Rightarrow> (Inr v, s1)
      | (Inl e, s1) \<Rightarrow>
          if isinstance_RuntimeError e then
            (case is_cudnn_error e s1 of
               (False, s2) \<Rightarrow> (Inl e, s2)
             | (True, s2) \<Rightarrow> (Inl (Exn RuntimeError cuda_warning_message (Some e)), s2))
          else (Inl e, s1))"

section \<open>Tensors\<close>

text \<open>
  A \<^verbatim>\<open>torch.FloatTensor\<close> is its shape and its entries in row-major order. The entries are
  real numbers, and the operations of this section and of the next ones compute on them
  exactly. The rounding of the machine's float32 arithmetic is made explicit in the section
  on rounded arithmetic below, where a tensor of float32 numbers is one whose entries the
  rounding leaves as they are.
\<close>

record tensor =
  shape :: "nat list"
  data :: "real list"

definition numel :: "nat list \<Rightarrow> nat" where
  "numel s = prod_list s"

fun flat_index :: "nat list \<Rightarrow> nat list \<Rightarrow> nat" where
  "flat_index (n # ns) (i # is) = i * prod_list ns + flat_index ns is"
| "flat_index _ _ = 0"

fun unravel :: "nat list \<Rightarrow> nat \<Rightarrow> nat list" where
  "unravel [] k = []"
| "unravel (n # ns) k = (k div prod_list ns) # unravel ns (k mod prod_list ns)"

fun valid_index :: "nat list \<Rightarrow> nat list \<Rightarrow> bool" where
  "valid_index [] [] = True"
| "valid_index (n # ns) (i # is) = (i < n \<and> valid_index ns is)"
| "valid_index _ _ = False"

definition entry :: "tensor \<Rightarrow> nat list \<Rightarrow> real" where
  "entry x idx = data x ! flat_index (shape x) idx"

definition tabulate :: "nat list \<Rightarrow> (nat list \<Rightarrow> real) \<Rightarrow> tensor" where
  "tabulate s f = \<lparr>shape = s, data = map (\<lambda>k. f (unravel s k)) [0..<prod_list s]\<rparr>"

definition wellformed :: "tensor \<Rightarrow> bool" where
  "wellformed x = (length (data x) = prod_list (shape x))"

definition full :: "nat list \<Rightarrow> real \<Rightarrow> tensor" where
  "full s v = \<lparr>shape = s, data = replicate (prod_list s) v\<rparr>"

definition map_tensor :: "(real \<Rightarrow> real) \<Rightarrow> tensor \<Rightarrow> tensor" where
  "map_tensor f x = x\<lparr>data := map f (data x)\<rparr>"

text \<open>\<^verbatim>\<open>c * x\<close> for a number \<open>c\<close>, and \<^verbatim>\<open>x + c\<close>.\<close>

definition scale :: "real \<Rightarrow> tensor \<Rightarrow> tensor" where
  "scale c x = map_tensor (\<lambda>v. c * v) x"

definition shift :: "real \<Rightarrow> tensor \<Rightarrow> tensor" where
  "shift c x = map_tensor (\<lambda>v. v + c) x"

text \<open>\<^verbatim>\<open>x.shape[i]\<close>: an index past the rank raises \<^verbatim>\<open>IndexError\<close>.\<close>

definition shape_at :: "tensor \<Rightarrow> nat \<Rightarrow> exn + nat" where
  "shape_at x i =
     (if i < length (shape x) then Inr (shape x ! i)
      else Inl (index_error ''tuple index out of range''))"

subsection \<open>Broadcasting\<close>

text \<open>
  The engine's broadcasting rule: shapes are aligned at their last axis; two extents are
  compatible when they are equal or one of them is 1; an operand is read at index 0 along
  an axis where its extent is 1.
\<close>

definition broadcast_dim :: "nat \<Rightarrow> nat \<Rightarrow> exn + nat" where
  "broadcast_dim a b =
     (if a = b then Inr a else if a = 1 then Inr b else if b = 1 then Inr a
      else Inl (runtime_error ''The size of tensor a must match the size of tensor b''))"

fun broadcast_rev :: "nat list \<Rightarrow> nat list \<Rightarrow> exn + nat list" where
  "broadcast_rev [] ys = Inr ys"
| "broadcast_rev xs [] = Inr xs"
| "broadcast_rev (x # xs) (y # ys) =
     bind_result (broadcast_dim x y) (\<lambda>d.
     bind_result (broadcast_rev xs ys) (\<lambda>ds. Inr (d # ds)))"

definition broadcast_shapes :: "nat list \<Rightarrow> nat list \<Rightarrow> exn + nat list" where
  "broadcast_shapes s1 s2 = bind_result (broadcast_rev (rev s1) (rev s2)) (\<lambda>ds. Inr (rev ds))"

definition unit_axis_index :: "nat \<Rightarrow> nat \<Rightarrow> nat" where
  "unit_axis_index n i = (if n = 1 then 0 else i)"

definition broadcast_index :: "nat list \<Rightarrow> nat list \<Rightarrow> nat list" where
  "broadcast_index s idx = map2 unit_axis_index s (drop (length idx - length s) idx)"

definition add_tensor :: "tensor \<Rightarrow> tensor \<Rightarrow> exn + tensor" where
  "add_tensor x y =
     bind_result (broadcast_shapes (shape x) (shape y)) (\<lambda>s.
     Inr (tabulate s (\<lambda>idx. entry x (broadcast_index (shape x) idx)
                            + entry y (broadcast_index (shape y) idx))))"

text \<open>\<^verbatim>\<open>0 + x\<close> with a Python number on the left: the number is added to every entry.\<close>

definition radd_scalar :: "real \<Rightarrow> tensor \<Rightarrow> tensor" where
  "radd_scalar c x = map_tensor (\<lambda>v. c + v) x"

subsection \<open>The contraction engine\<close>

text \<open>
  \<^verbatim>\<open>torch.einsum\<close>, for an equation with an explicit output, given in parsed form: one term
  (a string of axis labels) per operand and the output term. It raises when a term does not have one
  label per axis of its operand, when an output label is repeated or occurs in no
  operand's term, and when the extents met under one label are neither equal nor 1.
  The extent of a label is the extent other than 1 found under it, if any. The entry at
  an output index is the sum, over the indices of the labels that are not in the output,
  of the product of the operands' entries.
\<close>

definition label_sizes :: "(string \<times> tensor) list \<Rightarrow> char \<Rightarrow> nat list" where
  "label_sizes ops l =
     concat (map (\<lambda>(term, x). map snd (filter (\<lambda>(c, n). c = l) (zip term (shape x)))) ops)"

definition label_extent :: "(string \<times> tensor) list \<Rightarrow> char \<Rightarrow> nat" where
  "label_extent ops l =
     (case filter (\<lambda>n. n \<noteq> 1) (label_sizes ops l) of [] \<Rightarrow> 1 | n # _ \<Rightarrow> n)"

definition label_broadcasts :: "(string \<times> tensor) list \<Rightarrow> char \<Rightarrow> bool" where
  "label_broadcasts ops l =
     list_all (\<lambda>n. n = 1 \<or> n = label_extent ops l) (label_sizes ops l)"

definition assignment :: "string \<Rightarrow> nat list \<Rightarrow> char \<Rightarrow> nat" where
  "assignment labels idx l = (case map_of (zip labels idx) l of Some i \<Rightarrow> i | None \<Rightarrow> 0)"

definition operand_entry :: "(char \<Rightarrow> nat) \<Rightarrow> string \<times> tensor \<Rightarrow> real" where
  "operand_entry \<sigma> = (\<lambda>(term, x).
     entry x (map2 (\<lambda>l n. unit_axis_index n (\<sigma> l)) term (shape x)))"

definition einsum :: "string list \<Rightarrow> string \<Rightarrow> tensor list \<Rightarrow> exn + tensor" where
  "einsum terms out xs =
     (let ops = zip terms xs;
          labels = remdups (concat terms);
          summed = filter (\<lambda>l. l \<notin> set out) labels
      in if length terms \<noteq> length xs then
           Inl (runtime_error ''einsum(): more operands were provided than specified in the equation'')
         else if \<not> list_all (\<lambda>(term, x). length term = length (shape x)) ops then
           Inl (runtime_error ''einsum(): the number of subscripts in the equation does not match the number of dimensions'')
         else if \<not> distinct out then
           Inl (runtime_error ''einsum(): output subscript appears more than once in the output'')
         else if \<not> list_all (\<lambda>l. l \<in> set labels) out then
           Inl (runtime_error ''einsum(): output subscript does not appear in the equation for any input operand'')
         else if \<not> list_all (label_broadcasts ops) labels then
           Inl (runtime_error ''einsum(): operands do not broadcast with remapped shapes'')
         else
           Inr (tabulate (map (label_extent ops) out) (\<lambda>oidx.
             sum_list (map (\<lambda>sidx.
                 prod_list (map (operand_entry (assignment (out @ summed) (oidx @ sidx))) ops))
               (map (unravel (map (label_extent ops) summed))
                    [0..<prod_list (map (label_extent ops) summed)])))))"

section \<open>Collaborators from \<^verbatim>\<open>pykeen.utils\<close>\<close>

text \<open>
  Modelled from the spec: \<^verbatim>\<open>normalize_for_einsum\<close> (in \<^verbatim>\<open>pykeen/utils.py\<close>, which is not
  among the sources). A plain per-batch embedding of rank 2 gets the term \<^verbatim>\<open>bd\<close>, a tensor
  with a candidate axis the term \<^verbatim>\<open>b\<close>, its symbol, \<^verbatim>\<open>d\<close>. A tensor whose leading extent is
  1 is not repeated: the contraction engine broadcasts over it.
\<close>

definition normalize_for_einsum :: "tensor \<Rightarrow> nat \<Rightarrow> char \<Rightarrow> string \<times> tensor" where
  "normalize_for_einsum x batch_size symbol =
     (if length (shape x) = 2 then (''bd'', x) else (''b'' @ [symbol] @ ''d'', x))"

text \<open>
  Modelled from the spec: \<^verbatim>\<open>split_complex\<close> (in \<^verbatim>\<open>pykeen/utils.py\<close>, which is not among the
  sources). It halves the trailing axis: the first half is the real part, the second half
  the imaginary part. It fails when the trailing extent is odd.
\<close>

definition half_shape :: "nat list \<Rightarrow> nat list" where
  "half_shape s = butlast s @ [last s div 2]"

definition real_half :: "tensor \<Rightarrow> tensor" where
  "real_half x = tabulate (half_shape (shape x)) (\<lambda>idx. entry x idx)"

definition imag_half :: "tensor \<Rightarrow> tensor" where
  "imag_half x =
     tabulate (half_shape (shape x))
       (\<lambda>idx. entry x (butlast idx @ [last idx + last (shape x) div 2]))"

definition split_complex :: "tensor \<Rightarrow> exn + tensor \<times> tensor" where
  "split_complex x =
     (if shape x = [] then Inl (index_error ''tuple index out of range'')
      else if odd (last (shape x)) then
        Inl (Exn (Other_class ''DimensionError'') ''the trailing dimension must be even'' None)
      else Inr (real_half x, imag_half x))"

section \<open>DistMult and ComplEx\<close>

text \<open>\<^verbatim>\<open>_normalize_terms_for_einsum(h, r, t)\<close>\<close>

definition normalize_terms_for_einsum ::
  "tensor \<Rightarrow> tensor \<Rightarrow> tensor \<Rightarrow> exn + (tensor \<times> string \<times> tensor \<times> string \<times> tensor \<times> string)" where
  "normalize_terms_for_einsum h r t =
     bind_result (shape_at h 0) (\<lambda>hb.
     bind_result (shape_at r 0) (\<lambda>rb.
     bind_result (shape_at t 0) (\<lambda>tb.
       let batch_size = max hb (max rb tb);
           (h_term, h') = normalize_for_einsum h batch_size CHR ''h'';
           (r_term, r') = normalize_for_einsum r batch_size CHR ''r'';
           (t_term, t') = normalize_for_einsum t batch_size CHR ''t''
       in Inr (h', h_term, r', r_term, t', t_term))))"

text \<open>\<^verbatim>\<open>distmult_interaction(h, r, t)\<close>\<close>

definition distmult_interaction :: "tensor \<Rightarrow> tensor \<Rightarrow> tensor \<Rightarrow> exn + tensor" where
  "distmult_interaction h r t =
     bind_result (normalize_terms_for_einsum h r t) (\<lambda>(h', h_term, r', r_term, t', t_term).
       einsum [h_term, r_term, t_term] ''bhrt'' [h', r', t'])"

text \<open>
  \<^verbatim>\<open>complex_interaction(h, r, t)\<close>. \<open>complex_terms\<close> is the list the generator runs
  through, one contraction per triple, in the order of the source; Python's \<^verbatim>\<open>sum\<close> starts
  from the number 0 and adds them from left to right.
\<close>

definition complex_terms ::
  "string \<Rightarrow> string \<Rightarrow> string \<Rightarrow> tensor \<times> tensor \<Rightarrow> tensor \<times> tensor \<Rightarrow> tensor \<times> tensor
     \<Rightarrow> (exn + tensor) list" where
  "complex_terms h_term r_term t_term hs rs ts =
     (case (hs, rs, ts) of ((h_re, h_im), (r_re, r_im), (t_re, t_im)) \<Rightarrow>
        map (\<lambda>(hh, rr, tt). einsum [h_term, r_term, t_term] ''bhrt'' [hh, rr, tt])
          [(h_re, r_re, t_re),
           (h_re, r_im, t_im),
           (h_im, r_re, t_im),
           (h_im, r_im, t_re)])"

fun sum_from :: "tensor \<Rightarrow> (exn + tensor) list \<Rightarrow> exn + tensor" where
  "sum_from acc [] = Inr acc"
| "sum_from acc (m # ms) =
     bind_result m (\<lambda>x. bind_result (add_tensor acc x) (\<lambda>acc'. sum_from acc' ms))"

definition py_sum :: "(exn + tensor) list \<Rightarrow> exn + tensor" where
  "py_sum ms =
     (case ms of
        [] \<Rightarrow> Inr (full [] 0)
      | m # ms' \<Rightarrow> bind_result m (\<lambda>x. sum_from (radd_scalar 0 x) ms'))"

definition complex_interaction :: "tensor \<Rightarrow> tensor \<Rightarrow> tensor \<Rightarrow> exn + tensor" where
  "complex_interaction h r t =
     bind_result (normalize_terms_for_einsum h r t) (\<lambda>(h', h_term, r', r_term, t', t_term).
     bind_result (split_complex h') (\<lambda>hs.
     bind_result (split_complex r') (\<lambda>rs.
     bind_result (split_complex t') (\<lambda>ts.
       py_sum (complex_terms h_term r_term t_term hs rs ts)))))"

subsection \<open>Vocabulary for the properties of DistMult and ComplEx\<close>

text \<open>
  The trilinear product of three operands of rank 3 at an output index \<open>[i, j, k, l]\<close>:
  the sum over the embedding axis of head times relation times tail, each operand read
  at batch index 0 when its batch extent is 1.
\<close>

definition trilinear :: "tensor \<Rightarrow> tensor \<Rightarrow> tensor \<Rightarrow> nat list \<Rightarrow> real" where
  "trilinear h r t idx = (\<Sum>d<last (shape h).
        entry h [unit_axis_index (shape h ! 0) (idx ! 0), idx ! 1, d] *
        entry r [unit_axis_index (shape r ! 0) (idx ! 0), idx ! 2, d] *
        entry t [unit_axis_index (shape t ! 0) (idx ! 0), idx ! 3, d])"

text \<open>The four contractions that \<^verbatim>\<open>complex_interaction\<close> sums, before they are summed.\<close>

definition complex_components :: "tensor \<Rightarrow> tensor \<Rightarrow> tensor \<Rightarrow> exn + (exn + tensor) list" where
  "complex_components h r t =
     bind_result (normalize_terms_for_einsum h r t) (\<lambda>(h', h_term, r', r_term, t', t_term).
     bind_result (split_complex h') (\<lambda>hs.
     bind_result (split_complex r') (\<lambda>rs.
     bind_result (split_complex t') (\<lambda>ts.
       Inr (complex_terms h_term r_term t_term hs rs ts)))))"

text \<open>The tensor with the imaginary half (the second half of the trailing axis) negated.\<close>

definition negate_imag :: "tensor \<Rightarrow> tensor" where
  "negate_imag x =
     tabulate (shape x)
       (\<lambda>idx. if last idx < last (shape x) div 2 then entry x idx else - entry x idx)"

definition all_zero :: "tensor \<Rightarrow> bool" where
  "all_zero x = list_all (\<lambda>v. v = 0) (data x)"

section \<open>ConvE\<close>

subsection \<open>Tensor operations used by ConvE\<close>

text \<open>
  Strides are not modelled: a tensor is taken to be contiguous, so \<^verbatim>\<open>view\<close> only checks the
  number of entries. One extent of \<^verbatim>\<open>view\<close> may be \<^verbatim>\<open>-1\<close> and is then inferred.
\<close>

definition unsqueeze :: "tensor \<Rightarrow> nat \<Rightarrow> exn + tensor" where
  "unsqueeze x d =
     (if d \<le> length (shape x) then Inr (x\<lparr>shape := take d (shape x) @ [1] @ drop d (shape x)\<rparr>)
      else Inl (index_error ''Dimension out of range''))"

definition repeat :: "tensor \<Rightarrow> nat list \<Rightarrow> exn + tensor" where
  "repeat x reps =
     (if length reps < length (shape x) then
        Inl (runtime_error ''Number of dimensions of repeat dims can not be smaller than number of dimensions of tensor'')
      else
        let s = replicate (length reps - length (shape x)) 1 @ shape x
        in Inr (tabulate (map2 (*) s reps)
                  (\<lambda>idx. entry (x\<lparr>shape := s\<rparr>) (map2 (\<lambda>i n. i mod n) idx s))))"

definition view :: "tensor \<Rightarrow> int list \<Rightarrow> exn + tensor" where
  "view x dims =
     (let n = numel (shape x);
          known = prod_list (map nat (filter (\<lambda>d. d \<noteq> - 1) dims))
      in if list_ex (\<lambda>d. d < - 1) dims then
           Inl (runtime_error ''invalid shape dimension'')
         else if 1 < length (filter (\<lambda>d. d = - 1) dims) then
           Inl (runtime_error ''only one dimension can be inferred'')
         else if list_ex (\<lambda>d. d = - 1) dims then
           (if known = 0 \<or> n mod known \<noteq> 0 then
              Inl (runtime_error ''shape is invalid for input of this size'')
            else Inr (x\<lparr>shape := map (\<lambda>d. if d = - 1 then n div known else nat d) dims\<rparr>))
         else if known \<noteq> n then
           Inl (runtime_error ''shape is invalid for input of this size'')
         else Inr (x\<lparr>shape := map nat dims\<rparr>))"

text \<open>\<^verbatim>\<open>torch.cat([a, b], dim=d)\<close>\<close>

definition cat2 :: "tensor \<Rightarrow> tensor \<Rightarrow> nat \<Rightarrow> exn + tensor" where
  "cat2 a b d =
     (if length (shape a) \<noteq> length (shape b) then
        Inl (runtime_error ''Tensors must have same number of dimensions'')
      else if \<not> d < length (shape a) then
        Inl (index_error ''Dimension out of range'')
      else if (shape a)[d := 0] \<noteq> (shape b)[d := 0] then
        Inl (runtime_error ''Sizes of tensors must match except in the concatenated dimension'')
      else
        Inr (tabulate ((shape a)[d := shape a ! d + shape b ! d])
               (\<lambda>idx. if idx ! d < shape a ! d then entry a idx
                       else entry b (idx[d := idx ! d - shape a ! d]))))"

definition swap_last2 :: "'a list \<Rightarrow> 'a list" where
  "swap_last2 xs = butlast (butlast xs) @ [last xs, last (butlast xs)]"

text \<open>\<^verbatim>\<open>x.transpose(-1, -2)\<close>\<close>

definition transpose_last2 :: "tensor \<Rightarrow> exn + tensor" where
  "transpose_last2 x =
     (if length (shape x) < 2 then Inl (index_error ''Dimension out of range'')
      else Inr (tabulate (swap_last2 (shape x)) (\<lambda>idx. entry x (swap_last2 idx))))"

text \<open>
  \<^verbatim>\<open>a @ b\<close> for operands of rank at least 2 (both operands have rank 5 wherever this module
  multiplies): the leading axes broadcast, the last two are multiplied as matrices. The
  engine's special treatment of vectors is outside the model.
\<close>

definition matmul :: "tensor \<Rightarrow> tensor \<Rightarrow> exn + tensor" where
  "matmul a b =
     (let sa = shape a; sb = shape b
      in if length sa < 2 \<or> length sb < 2 then
           Inl (runtime_error ''matmul: operands of rank below 2 are outside the model'')
         else if last sa \<noteq> last (butlast sb) then
           Inl (runtime_error ''mat1 and mat2 shapes cannot be multiplied'')
         else
           bind_result (broadcast_shapes (butlast (butlast sa)) (butlast (butlast sb))) (\<lambda>bs.
           Inr (tabulate (bs @ [last (butlast sa), last sb])
                  (\<lambda>idx. let bidx = butlast (butlast idx); i = last (butlast idx); l = last idx
                          in sum_list (map (\<lambda>j.
                               entry a (broadcast_index (butlast (butlast sa)) bidx @ [i, j])
                               * entry b (broadcast_index (butlast (butlast sb)) bidx @ [j, l]))
                             [0..<last sa])))))"

text \<open>\<^verbatim>\<open>x.squeeze(dim=-2)\<close>\<close>

definition squeeze_m2 :: "tensor \<Rightarrow> exn + tensor" where
  "squeeze_m2 x =
     (if length (shape x) < 2 then Inl (index_error ''Dimension out of range'')
      else if last (butlast (shape x)) = 1 then
        Inr (x\<lparr>shape := butlast (butlast (shape x)) @ [last (shape x)]\<rparr>)
      else Inr x)"

subsection \<open>The layers\<close>

text \<open>
  The layers are owned by the caller. Each maps a tensor to a tensor, may raise, and may
  read and update state of its own (running statistics, the random source of dropout).
  The three batch normalisations may be absent.
\<close>

type_synonym 's layer = "tensor \<Rightarrow> ('s, tensor) prog"

record 's conve_layers =
  bn0 :: "'s layer option"
  bn1 :: "'s layer option"
  bn2 :: "'s layer option"
  inp_drop :: "'s layer"
  feature_map_drop :: "'s layer"
  hidden_drop :: "'s layer"
  conv1 :: "'s layer"
  activation :: "'s layer"
  fc :: "'s layer"

record conve_sizes =
  input_channels :: int
  embedding_height :: int
  embedding_width :: int
  num_in_features :: int
  embedding_dim :: int

definition apply_optional :: "'s layer option \<Rightarrow> 's layer" where
  "apply_optional l x = (case l of None \<Rightarrow> lift_result (Inr x) | Some f \<Rightarrow> f x)"

subsection \<open>\<^verbatim>\<open>conve_interaction\<close>\<close>

text \<open>Binding the sizes, repeating, resizing and concatenating head and relation.\<close>

definition conve_input ::
  "conve_sizes \<Rightarrow> tensor \<Rightarrow> tensor \<Rightarrow> tensor \<Rightarrow> exn + (tensor \<times> nat \<times> nat \<times> nat \<times> nat)" where
  "conve_input Z h r t =
     bind_result (shape_at h 0) (\<lambda>hb.
     bind_result (shape_at r 0) (\<lambda>rb.
     bind_result (shape_at t 0) (\<lambda>tb.
     let batch_size = max hb (max rb tb) in
     bind_result (shape_at h 1) (\<lambda>num_heads.
     bind_result (shape_at r 1) (\<lambda>num_relations.
     bind_result (shape_at t 1) (\<lambda>num_tails.
     bind_result (unsqueeze h 2) (\<lambda>hu.
     bind_result (repeat hu [if hb = batch_size then 1 else batch_size, 1, num_relations, 1]) (\<lambda>h'.
     bind_result (unsqueeze r 1) (\<lambda>ru.
     bind_result (repeat ru [if rb = batch_size then 1 else batch_size, num_heads, 1, 1]) (\<lambda>r'.
     bind_result (view h' [- 1, input_channels Z, embedding_height Z, embedding_width Z]) (\<lambda>hv.
     bind_result (view r' [- 1, input_channels Z, embedding_height Z, embedding_width Z]) (\<lambda>rv.
     bind_result (cat2 hv rv 2) (\<lambda>x.
       Inr (x, batch_size, num_heads, num_relations, num_tails))))))))))))))"

text \<open>The product of the convolved rows with the tail rows (up to the squeeze).\<close>

definition conve_matmul ::
  "conve_sizes \<Rightarrow> nat \<Rightarrow> nat \<Rightarrow> nat \<Rightarrow> nat \<Rightarrow> tensor \<Rightarrow> tensor \<Rightarrow> exn + (tensor \<times> tensor)" where
  "conve_matmul Z batch_size num_heads num_relations num_tails x t =
     bind_result (view x [int batch_size, int num_heads, int num_relations, 1, embedding_dim Z]) (\<lambda>x'.
     bind_result (shape_at t 0) (\<lambda>tb.
     bind_result (view t [int tb, 1, 1, int num_tails, embedding_dim Z]) (\<lambda>tv.
     bind_result (transpose_last2 tv) (\<lambda>t'.
     bind_result (matmul x' t') (\<lambda>m.
     bind_result (squeeze_m2 m) (\<lambda>x''. Inr (x'', t')))))))"

text \<open>Adding the bias term; \<open>t\<close> is the tail tensor as reshaped and transposed above.\<close>

definition conve_add_bias :: "nat \<Rightarrow> tensor \<Rightarrow> tensor \<Rightarrow> tensor \<Rightarrow> exn + tensor" where
  "conve_add_bias num_tails x t t_bias =
     bind_result (shape_at t 0) (\<lambda>tb.
     bind_result (view t_bias [int tb, 1, 1, int num_tails]) (\<lambda>b.
       add_tensor x b))"

text \<open>The function before decoration.\<close>

definition conve_body ::
  "'s conve_layers \<Rightarrow> conve_sizes \<Rightarrow> tensor \<Rightarrow> tensor \<Rightarrow> tensor \<Rightarrow> tensor \<Rightarrow> ('s, tensor) prog" where
  "conve_body L Z h r t t_bias =
     bind_prog (lift_result (conve_input Z h r t))
       (\<lambda>(x, batch_size, num_heads, num_relations, num_tails).
     bind_prog (apply_optional (bn0 L) x) (\<lambda>x.
     bind_prog (inp_drop L x) (\<lambda>x.
     bind_prog (conv1 L x) (\<lambda>x.
     bind_prog (apply_optional (bn1 L) x) (\<lambda>x.
     bind_prog (activation L x) (\<lambda>x.
     bind_prog (feature_map_drop L x) (\<lambda>x.
     bind_prog (lift_result (view x [- 1, num_in_features Z])) (\<lambda>x.
     bind_prog (fc L x) (\<lambda>x.
     bind_prog (hidden_drop L x) (\<lambda>x.
     bind_prog (apply_optional (bn2 L) x) (\<lambda>x.
     bind_prog (activation L x) (\<lambda>x.
     bind_prog (lift_result (conve_matmul Z batch_size num_heads num_relations num_tails x t))
       (\<lambda>(x, t').
     lift_result (conve_add_bias num_tails x t' t_bias))))))))))))))"

text \<open>The decorated function: \<^verbatim>\<open>conve_interaction = _add_cuda_warning(conve_interaction)\<close>.\<close>

definition conve_interaction ::
  "(exn \<Rightarrow> 's \<Rightarrow> bool \<times> 's) \<Rightarrow> 's conve_layers \<Rightarrow> conve_sizes
     \<Rightarrow> tensor \<Rightarrow> tensor \<Rightarrow> tensor \<Rightarrow> tensor \<Rightarrow> ('s, tensor) prog" where
  "conve_interaction is_cudnn_error L Z h r t t_bias =
     add_cuda_warning is_cudnn_error (\<lambda>(h, r, t, t_bias). conve_body L Z h r t t_bias)
       (h, r, t, t_bias)"

section \<open>Rounded arithmetic\<close>

text \<open>
  The entries of a \<^verbatim>\<open>torch.FloatTensor\<close> are float32 numbers, and every product and sum
  the engine computes is rounded to one. The definitions of this section repeat the
  arithmetic of the sections above with the rounding made explicit: a function \<open>rnd\<close> is
  applied to the result of every multiplication and addition. With \<open>rnd\<close> the identity
  they are the definitions above; with \<open>rnd = round_float32\<close> they are the arithmetic of
  the engine on finite values. Sums run from the first summand to the last; the engine
  does not promise an order.
\<close>

text \<open>Rounding to the nearest integer, a tie going to the even one.\<close>

definition round_half_even :: "real \<Rightarrow> int" where
  "round_half_even z =
     (let f = \<lfloor>z\<rfloor>; d = z - of_int f
      in if d < 1 / 2 then f else if 1 / 2 < d then f + 1 else if even f then f else f + 1)"

text \<open>The exponent of the leading binary digit of \<open>x \<noteq> 0\<close>: the floor of its logarithm to base 2.\<close>

definition binary_exponent :: "real \<Rightarrow> int" where
  "binary_exponent x =
     (if 1 \<le> \<bar>x\<bar> then bitlen \<lfloor>\<bar>x\<bar>\<rfloor> - 1
      else - bitlen (\<lceil>1 / \<bar>x\<bar>\<rceil> - 1))"

text \<open>
  The float32 number nearest to a real number, ties to even: 24 significant binary
  digits, and steps of \<open>2 powi - 149\<close> below \<open>2 powi - 126\<close>. A result beyond the largest
  finite float32 number is infinite in the engine and is outside this model.
\<close>

definition round_float32 :: "real \<Rightarrow> real" where
  "round_float32 x =
     (if x = 0 then 0
      else let e = max (binary_exponent x - 23) (- 149)
           in of_int (round_half_even (x / 2 powi e)) * 2 powi e)"

text \<open>\<^verbatim>\<open>c * x\<close> and \<^verbatim>\<open>x + c\<close> for a number \<open>c\<close>, rounded.\<close>

definition scale_rounded :: "(real \<Rightarrow> real) \<Rightarrow> real \<Rightarrow> tensor \<Rightarrow> tensor" where
  "scale_rounded rnd c x = map_tensor (\<lambda>v. rnd (c * v)) x"

definition shift_rounded :: "(real \<Rightarrow> real) \<Rightarrow> real \<Rightarrow> tensor \<Rightarrow> tensor" where
  "shift_rounded rnd c x = map_tensor (\<lambda>v. rnd (v + c)) x"

definition rounded_sum :: "(real \<Rightarrow> real) \<Rightarrow> real list \<Rightarrow> real" where
  "rounded_sum rnd vs = (case vs of [] \<Rightarrow> 0 | v # vs' \<Rightarrow> foldl (\<lambda>a u. rnd (a + u)) v vs')"


definition add_tensor_rounded :: "(real \<Rightarrow> real) \<Rightarrow> tensor \<Rightarrow> tensor \<Rightarrow> exn + tensor" where
  "add_tensor_rounded rnd x y =
     bind_result (broadcast_shapes (shape x) (shape y)) (\<lambda>s.
     Inr (tabulate s (\<lambda>idx. rnd (entry x (broadcast_index (shape x) idx)
                                 + entry y (broadcast_index (shape y) idx)))))"


definition matmul_rounded :: "(real \<Rightarrow> real) \<Rightarrow> tensor \<Rightarrow> tensor \<Rightarrow> exn + tensor" where
  "matmul_rounded rnd a b =
     (let sa = shape a; sb = shape b
      in if length sa < 2 \<or> length sb < 2 then
           Inl (runtime_error ''matmul: operands of rank below 2 are outside the model'')
         else if last sa \<noteq> last (butlast sb) then
           Inl (runtime_error ''mat1 and mat2 shapes cannot be multiplied'')
         else
           bind_result (broadcast_shapes (butlast (butlast sa)) (butlast (butlast sb))) (\<lambda>bs.
           Inr (tabulate (bs @ [last (butlast sa), last sb])
                  (\<lambda>idx. let bidx = butlast (butlast idx); i = last (butlast idx); l = last idx
                          in rounded_sum rnd (map (\<lambda>j.
                               rnd (entry a (broadcast_index (butlast (butlast sa)) bidx @ [i, j])
                                 * entry b (broadcast_index (butlast (butlast sb)) bidx @ [j, l])))
                             [0..<last sa])))))"




text \<open>\<^verbatim>\<open>conve_interaction\<close> with rounding \<open>rnd\<close>: the same steps, the product and the sum rounded.\<close>

definition conve_matmul_rounded ::
  "(real \<Rightarrow> real) \<Rightarrow> conve_sizes \<Rightarrow> nat \<Rightarrow> nat \<Rightarrow> nat \<Rightarrow> nat \<Rightarrow> tensor \<Rightarrow> tensor
     \<Rightarrow> exn + (tensor \<times> tensor)" where
  "conve_matmul_rounded rnd Z batch_size num_heads num_relations num_tails x t =
     bind_result (view x [int batch_size, int num_heads, int num_relations, 1, embedding_dim Z]) (\<lambda>x'.
     bind_result (shape_at t 0) (\<lambda>tb.
     bind_result (view t [int tb, 1, 1, int num_tails, embedding_dim Z]) (\<lambda>tv.
     bind_result (transpose_last2 tv) (\<lambda>t'.
     bind_result (matmul_rounded rnd x' t') (\<lambda>m.
     bind_result (squeeze_m2 m) (\<lambda>x''. Inr (x'', t')))))))"

definition conve_add_bias_rounded ::
  "(real \<Rightarrow> real) \<Rightarrow> nat \<Rightarrow> tensor \<Rightarrow> tensor \<Rightarrow> tensor \<Rightarrow> exn + tensor" where
  "conve_add_bias_rounded rnd num_tails x t t_bias =
     bind_result (shape_at t 0) (\<lambda>tb.
     bind_result (view t_bias [int tb, 1, 1, int num_tails]) (\<lambda>b.
       add_tensor_rounded rnd x b))"

text \<open>
  The same computation stopped before the bias is added: it yields the product, the
  tail tensor as reshaped and transposed, and the number of tails.
\<close>

definition conve_before_bias_rounded ::
  "(real \<Rightarrow> real) \<Rightarrow> 's conve_layers \<Rightarrow> conve_sizes \<Rightarrow> tensor \<Rightarrow> tensor \<Rightarrow> tensor
     \<Rightarrow> ('s, tensor \<times> tensor \<times> nat) prog" where
  "conve_before_bias_rounded rnd L Z h r t =
     bind_prog (lift_result (conve_input Z h r t))
       (\<lambda>(x, batch_size, num_heads, num_relations, num_tails).
     bind_prog (apply_optional (bn0 L) x) (\<lambda>x.
     bind_prog (inp_drop L x) (\<lambda>x.
     bind_prog (conv1 L x) (\<lambda>x.
     bind_prog (apply_optional (bn1 L) x) (\<lambda>x.
     bind_prog (activation L x) (\<lambda>x.
     bind_prog (feature_map_drop L x) (\<lambda>x.
     bind_prog (lift_result (view x [- 1, num_in_features Z])) (\<lambda>x.
     bind_prog (fc L x) (\<lambda>x.
     bind_prog (hidden_drop L x) (\<lambda>x.
     bind_prog (apply_optional (bn2 L) x) (\<lambda>x.
     bind_prog (activation L x) (\<lambda>x.
     bind_prog (lift_result
         (conve_matmul_rounded rnd Z batch_size num_heads num_relations num_tails x t))
       (\<lambda>(x, t').
     lift_result (Inr (x, t', num_tails)))))))))))))))"

definition conve_body_rounded ::
  "(real \<Rightarrow> real) \<Rightarrow> 's conve_layers \<Rightarrow> conve_sizes \<Rightarrow> tensor \<Rightarrow> tensor \<Rightarrow> tensor \<Rightarrow> tensor
     \<Rightarrow> ('s, tensor) prog" where
  "conve_body_rounded rnd L Z h r t t_bias =
     bind_prog (lift_result (conve_input Z h r t))
       (\<lambda>(x, batch_size, num_heads, num_relations, num_tails).
     bind_prog (apply_optional (bn0 L) x) (\<lambda>x.
     bind_prog (inp_drop L x) (\<lambda>x.
     bind_prog (conv1 L x) (\<lambda>x.
     bind_prog (apply_optional (bn1 L) x) (\<lambda>x.
     bind_prog (activation L x) (\<lambda>x.
     bind_prog (feature_map_drop L x) (\<lambda>x.
     bind_prog (lift_result (view x [- 1, num_in_features Z])) (\<lambda>x.
     bind_prog (fc L x) (\<lambda>x.
     bind_prog (hidden_drop L x) (\<lambda>x.
     bind_prog (apply_optional (bn2 L) x) (\<lambda>x.
     bind_prog (activation L x) (\<lambda>x.
     bind_prog (lift_result
         (conve_matmul_rounded rnd Z batch_size num_heads num_relations num_tails x t))
       (\<lambda>(x, t').
     lift_result (conve_add_bias_rounded rnd num_tails x t' t_bias))))))))))))))"

definition conve_interaction_rounded ::
  "(real \<Rightarrow> real) \<Rightarrow> (exn \<Rightarrow> 's \<Rightarrow> bool \<times> 's) \<Rightarrow> 's conve_layers \<Rightarrow> conve_sizes
     \<Rightarrow> tensor \<Rightarrow> tensor \<Rightarrow> tensor \<Rightarrow> tensor \<Rightarrow> ('s, tensor) prog" where
  "conve_interaction_rounded rnd is_cudnn_error L Z h r t t_bias =
     add_cuda_warning is_cudnn_error (\<lambda>(h, r, t, t_bias). conve_body_rounded rnd L Z h r t t_bias)
       (h, r, t, t_bias)"

section \<open>Example inputs\<close>

text \<open>
  Small layers, sizes and a classifier on which the definitions above are run. The state
  of the examples that raise is a pair of counters: the runs of the raising layer and the
  consultations of the classifier.
\<close>

definition identity_layer :: "'s layer" where
  "identity_layer x = lift_result (Inr x)"

definition row_sum_layer :: "'s layer" where
  "row_sum_layer x =
     lift_result (Inr (tabulate [shape x ! 0, 1]
                         (\<lambda>idx. entry x [idx ! 0, 0] + entry x [idx ! 0, 1])))"

definition raising_layer :: "exn \<Rightarrow> (nat \<times> nat) layer" where
  "raising_layer e x = (\<lambda>(runs, asked). (Inl e, (Suc runs, asked)))"

definition message_classifier :: "string \<Rightarrow> exn \<Rightarrow> nat \<times> nat \<Rightarrow> bool \<times> (nat \<times> nat)" where
  "message_classifier m e = (\<lambda>(runs, asked). (message e = m, (runs, Suc asked)))"

definition example_layers :: "'s layer \<Rightarrow> 's conve_layers" where
  "example_layers conv =
     \<lparr>bn0 = None, bn1 = Some identity_layer, bn2 = None, inp_drop = identity_layer,
      feature_map_drop = identity_layer, hidden_drop = identity_layer, conv1 = conv,
      activation = identity_layer, fc = row_sum_layer\<rparr>"

definition example_sizes :: conve_sizes where
  "example_sizes =
     \<lparr>input_channels = 1, embedding_height = 1, embedding_width = 1, num_in_features = 2,
      embedding_dim = 1\<rparr>"

section \<open>Indices and tabulated tensors\<close>

lemma flat_index_less:
  "valid_index s idx \<Longrightarrow> flat_index s idx < prod_list s"
proof (induction s idx rule: valid_index.induct)
  case (2 n ns i "is")
  then have a: "i < n" and b: "flat_index ns is < prod_list ns" by simp_all
  have "i * prod_list ns + flat_index ns is < i * prod_list ns + prod_list ns"
    using b by simp
  also have "\<dots> = Suc i * prod_list ns" by simp
  also have "\<dots> \<le> n * prod_list ns" using a by (intro mult_le_mono1) simp
  finally show ?case by simp
qed simp_all

lemma unravel_flat_index:
  "valid_index s idx \<Longrightarrow> unravel s (flat_index s idx) = idx"
proof (induction s idx rule: valid_index.induct)
  case (2 n ns i "is")
  then have b: "flat_index ns is < prod_list ns" by (simp add: flat_index_less)
  with 2 show ?case by simp
qed simp_all

lemma valid_index_unravel:
  "k < prod_list s \<Longrightarrow> valid_index s (unravel s k)"
proof (induction s arbitrary: k)
  case (Cons n ns)
  then have pos: "0 < prod_list ns" by (cases "prod_list ns") simp_all
  have "k div prod_list ns < n"
    using Cons.prems pos by (simp add: less_mult_imp_div_less mult.commute)
  moreover have "k mod prod_list ns < prod_list ns" using pos by simp
  ultimately show ?case using Cons.IH by simp
qed simp

lemma shape_tabulate [simp]: "shape (tabulate s f) = s"
  by (simp add: tabulate_def)

lemma wellformed_tabulate [simp]: "wellformed (tabulate s f)"
  by (simp add: tabulate_def wellformed_def)

lemma entry_tabulate:
  "valid_index s idx \<Longrightarrow> entry (tabulate s f) idx = f idx"
  by (simp add: entry_def tabulate_def flat_index_less unravel_flat_index)

lemma tabulate_cong:
  "(\<And>idx. valid_index s idx \<Longrightarrow> f idx = g idx) \<Longrightarrow> tabulate s f = tabulate s g"
  by (simp add: tabulate_def valid_index_unravel)

lemma map_tensor_tabulate: "map_tensor g (tabulate s f) = tabulate s (\<lambda>idx. g (f idx))"
  by (simp add: map_tensor_def tabulate_def)

lemma shape_map_tensor [simp]: "shape (map_tensor g x) = shape x"
  by (simp add: map_tensor_def)

lemma entry_map_tensor:
  "wellformed x \<Longrightarrow> valid_index (shape x) idx \<Longrightarrow> entry (map_tensor g x) idx = g (entry x idx)"
  by (simp add: entry_def map_tensor_def wellformed_def flat_index_less)

lemma valid_index3:
  "valid_index [a, b, c] [i, j, k] = (i < a \<and> j < b \<and> k < c)"
  by simp

lemma valid_index4:
  "valid_index [a, b, c, d] idx =
     (\<exists>i j k l. idx = [i, j, k, l] \<and> i < a \<and> j < b \<and> k < c \<and> l < d)"
proof (cases idx)
  case (Cons i i1)
  then show ?thesis
  proof (cases i1)
    case (Cons j i2)
    then show ?thesis using \<open>idx = i # i1\<close>
    proof (cases i2)
      case (Cons k i3)
      then show ?thesis using \<open>idx = i # i1\<close> \<open>i1 = j # i2\<close>
        by (cases i3; cases "tl i3") auto
    qed simp
  qed simp
qed simp

lemma unit_axis_index_less: "i < n \<Longrightarrow> unit_axis_index n i = i"
  by (auto simp: unit_axis_index_def)

lemma unit_axis_index_valid: "m = n \<or> m = 1 \<Longrightarrow> i < n \<Longrightarrow> unit_axis_index m i < m"
  by (auto simp: unit_axis_index_def)

section \<open>Broadcasting of equal shapes\<close>

lemma broadcast_rev_same: "broadcast_rev s s = Inr s"
  by (induction s) (simp_all add: broadcast_dim_def bind_result_def)

lemma broadcast_shapes_same: "broadcast_shapes s s = Inr s"
  by (simp add: broadcast_shapes_def broadcast_rev_same bind_result_def)

lemma map2_unit_axis_index_valid:
  "valid_index s idx \<Longrightarrow> map2 unit_axis_index s idx = idx"
  by (induction s idx rule: valid_index.induct) (simp_all add: unit_axis_index_less)

lemma valid_index_length: "valid_index s idx \<Longrightarrow> length idx = length s"
  by (induction s idx rule: valid_index.induct) simp_all

lemma broadcast_index_same: "valid_index s idx \<Longrightarrow> broadcast_index s idx = idx"
  by (simp add: broadcast_index_def valid_index_length map2_unit_axis_index_valid)

lemma add_tensor_tabulate:
  "add_tensor (tabulate s f) (tabulate s g) = Inr (tabulate s (\<lambda>idx. f idx + g idx))"
proof -
  have "tabulate s (\<lambda>idx. entry (tabulate s f) (broadcast_index s idx)
                          + entry (tabulate s g) (broadcast_index s idx))
        = tabulate s (\<lambda>idx. f idx + g idx)"
    by (rule tabulate_cong) (simp add: broadcast_index_same entry_tabulate)
  then show ?thesis
    by (simp add: add_tensor_def broadcast_shapes_same bind_result_def)
qed

section \<open>The contraction of three rank-3 operands\<close>

lemma label_extent_single: "label_sizes ops l = [n] \<Longrightarrow> label_extent ops l = n"
  by (simp add: label_extent_def)

lemma label_extent_same3: "label_sizes ops l = [n, n, n] \<Longrightarrow> label_extent ops l = n"
  by (simp add: label_extent_def)

lemma label_extent_batch3:
  assumes "label_sizes ops l = [a, b, c]"
    and "a = B \<or> a = 1" "b = B \<or> b = 1" "c = B \<or> c = 1" "B = max a (max b c)"
  shows "label_extent ops l = B"
  using assms by (auto simp: label_extent_def)

lemma sum_list_upt_sum: "sum_list (map f [0..<n]) = (\<Sum>d<n. f d)"
  by (simp add: interv_sum_list_conv_sum_set_nat atLeast0LessThan)

lemma einsum_bhrt:
  assumes sh: "shape h = [hb, H, D]" "shape r = [rb, R, D]" "shape t = [tb, T, D]"
    and bc: "hb = B \<or> hb = 1" "rb = B \<or> rb = 1" "tb = B \<or> tb = 1" "B = max hb (max rb tb)"
  shows "einsum [''bhd'', ''brd'', ''btd''] ''bhrt'' [h, r, t] =
     Inr (tabulate [B, H, R, T] (trilinear h r t))"
proof -
  let ?ops = "[(''bhd'', h), (''brd'', r), (''btd'', t)]"
  have sb: "label_sizes ?ops CHR ''b'' = [hb, rb, tb]"
    and sh': "label_sizes ?ops CHR ''h'' = [H]"
    and sr: "label_sizes ?ops CHR ''r'' = [R]"
    and st: "label_sizes ?ops CHR ''t'' = [T]"
    and sd: "label_sizes ?ops CHR ''d'' = [D, D, D]"
    using sh by (simp_all add: label_sizes_def)
  have eb: "label_extent ?ops CHR ''b'' = B" using label_extent_batch3[OF sb bc] .
  have eh: "label_extent ?ops CHR ''h'' = H" using label_extent_single[OF sh'] .
  have er: "label_extent ?ops CHR ''r'' = R" using label_extent_single[OF sr] .
  have et: "label_extent ?ops CHR ''t'' = T" using label_extent_single[OF st] .
  have ed: "label_extent ?ops CHR ''d'' = D" using label_extent_same3[OF sd] .
  have bcs: "label_broadcasts ?ops CHR ''b''" "label_broadcasts ?ops CHR ''h''"
    "label_broadcasts ?ops CHR ''r''" "label_broadcasts ?ops CHR ''t''"
    "label_broadcasts ?ops CHR ''d''"
    using bc by (auto simp: label_broadcasts_def sb sh' sr st sd eb eh er et ed)
  let ?F = "\<lambda>oidx. sum_list (map (\<lambda>sidx.
                 prod_list (map (operand_entry (assignment (''bhrt'' @ ''d'') (oidx @ sidx))) ?ops))
               (map (unravel [D]) [0..<D]))"
  have "einsum [''bhd'', ''brd'', ''btd''] ''bhrt'' [h, r, t] = Inr (tabulate [B, H, R, T] ?F)"
    using sh by (simp add: einsum_def Let_def bcs eb eh er et ed)
  also have "tabulate [B, H, R, T] ?F = tabulate [B, H, R, T] (trilinear h r t)"
  proof (rule tabulate_cong)
    fix idx assume "valid_index [B, H, R, T] idx"
    then obtain i j k l where idx: "idx = [i, j, k, l]" and lt: "i < B" "j < H" "k < R" "l < T"
      by (auto simp: valid_index4)
    have "?F idx =
          sum_list (map (\<lambda>d. entry h [unit_axis_index hb i, j, d] *
                              entry r [unit_axis_index rb i, k, d] *
                              entry t [unit_axis_index tb i, l, d]) [0..<D])"
      unfolding map_map
      by (rule arg_cong[where f = sum_list], rule map_cong)
         (simp_all add: idx operand_entry_def assignment_def sh lt unit_axis_index_less mult.assoc)
    then show "?F idx = trilinear h r t idx"
      by (simp add: sum_list_upt_sum idx trilinear_def sh)
  qed
  finally show ?thesis .
qed

section \<open>DistMult\<close>

lemma normalize_terms_rank3:
  assumes "shape h = [hb, H, D]" "shape r = [rb, R, D']" "shape t = [tb, T, D'']"
  shows "normalize_terms_for_einsum h r t = Inr (h, ''bhd'', r, ''brd'', t, ''btd'')"
  using assms
  by (simp add: normalize_terms_for_einsum_def shape_at_def bind_result_def
      normalize_for_einsum_def)

lemma distmult_rank3:
  assumes sh: "shape h = [hb, H, D]" "shape r = [rb, R, D]" "shape t = [tb, T, D]"
    and bc: "hb = B \<or> hb = 1" "rb = B \<or> rb = 1" "tb = B \<or> tb = 1" "B = max hb (max rb tb)"
  shows "distmult_interaction h r t = Inr (tabulate [B, H, R, T] (trilinear h r t))"
  using einsum_bhrt[OF sh bc]
  by (simp add: distmult_interaction_def normalize_terms_rank3[OF sh] bind_result_def)

lemma trilinear_entry:
  assumes "shape h = [hb, H, D]" "shape r = [rb, R, D]" "shape t = [tb, T, D]"
  shows "trilinear h r t [i, j, k, l] =
     (\<Sum>d<D. entry h [unit_axis_index hb i, j, d] * entry r [unit_axis_index rb i, k, d]
              * entry t [unit_axis_index tb i, l, d])"
  using assms by (simp add: trilinear_def)

lemma distmult_rank3_entries:
  assumes sh: "shape h = [hb, H, D]" "shape r = [rb, R, D]" "shape t = [tb, T, D]"
    and bc: "hb = B \<or> hb = 1" "rb = B \<or> rb = 1" "tb = B \<or> tb = 1" "B = max hb (max rb tb)"
  shows "\<exists>y. distmult_interaction h r t = Inr y \<and> shape y = [B, H, R, T] \<and>
           (\<forall>i<B. \<forall>j<H. \<forall>k<R. \<forall>l<T.
              entry y [i, j, k, l] =
                (\<Sum>d<D. entry h [unit_axis_index hb i, j, d]
                        * entry r [unit_axis_index rb i, k, d]
                        * entry t [unit_axis_index tb i, l, d]))"
  by (simp add: distmult_rank3[OF sh bc] entry_tabulate trilinear_entry[OF sh])


section \<open>ComplEx\<close>

lemma half_shape3: "half_shape [b, k, d] = [b, k, d div 2]"
  by (simp add: half_shape_def)

lemma shape_real_half: "shape (real_half x) = half_shape (shape x)"
  by (simp add: real_half_def)

lemma shape_imag_half: "shape (imag_half x) = half_shape (shape x)"
  by (simp add: imag_half_def)

lemma split_complex_rank3:
  "shape x = [b, k, d] \<Longrightarrow> even d \<Longrightarrow> split_complex x = Inr (real_half x, imag_half x)"
  by (simp add: split_complex_def)

lemma radd_scalar_zero_tabulate: "radd_scalar 0 (tabulate s f) = tabulate s f"
  by (simp add: radd_scalar_def map_tensor_tabulate)

lemma py_sum_four_tabulate:
  "py_sum [Inr (tabulate s f1), Inr (tabulate s f2), Inr (tabulate s f3), Inr (tabulate s f4)]
     = Inr (tabulate s (\<lambda>idx. f1 idx + f2 idx + f3 idx + f4 idx))"
  by (simp add: py_sum_def bind_result_def radd_scalar_zero_tabulate add_tensor_tabulate)

lemma complex_interaction_components:
  "complex_interaction h r t = bind_result (complex_components h r t) py_sum"
  by (auto simp: complex_interaction_def complex_components_def bind_result_def
      split: sum.splits prod.splits)

lemma complex_components_rank3:
  assumes sh: "shape h = [hb, H, D]" "shape r = [rb, R, D]" "shape t = [tb, T, D]"
    and ev: "even D"
    and bc: "hb = B \<or> hb = 1" "rb = B \<or> rb = 1" "tb = B \<or> tb = 1" "B = max hb (max rb tb)"
  shows "complex_components h r t =
     Inr [Inr (tabulate [B, H, R, T] (trilinear (real_half h) (real_half r) (real_half t))),
          Inr (tabulate [B, H, R, T] (trilinear (real_half h) (imag_half r) (imag_half t))),
          Inr (tabulate [B, H, R, T] (trilinear (imag_half h) (real_half r) (imag_half t))),
          Inr (tabulate [B, H, R, T] (trilinear (imag_half h) (imag_half r) (real_half t)))]"
proof -
  have rh: "shape (real_half h) = [hb, H, D div 2]" "shape (imag_half h) = [hb, H, D div 2]"
    and rr: "shape (real_half r) = [rb, R, D div 2]" "shape (imag_half r) = [rb, R, D div 2]"
    and rt: "shape (real_half t) = [tb, T, D div 2]" "shape (imag_half t) = [tb, T, D div 2]"
    by (simp_all add: shape_real_half shape_imag_half sh half_shape3)
  show ?thesis
    by (simp add: complex_components_def normalize_terms_rank3[OF sh] bind_result_def
        split_complex_rank3[OF sh(1) ev] split_complex_rank3[OF sh(2) ev]
        split_complex_rank3[OF sh(3) ev] complex_terms_def
        einsum_bhrt[OF rh(1) rr(1) rt(1) bc] einsum_bhrt[OF rh(1) rr(2) rt(2) bc]
        einsum_bhrt[OF rh(2) rr(1) rt(2) bc] einsum_bhrt[OF rh(2) rr(2) rt(1) bc])
qed

lemma complex_rank3:
  assumes sh: "shape h = [hb, H, D]" "shape r = [rb, R, D]" "shape t = [tb, T, D]"
    and ev: "even D"
    and bc: "hb = B \<or> hb = 1" "rb = B \<or> rb = 1" "tb = B \<or> tb = 1" "B = max hb (max rb tb)"
  shows "complex_interaction h r t =
     Inr (tabulate [B, H, R, T] (\<lambda>idx.
            trilinear (real_half h) (real_half r) (real_half t) idx
          + trilinear (real_half h) (imag_half r) (imag_half t) idx
          + trilinear (imag_half h) (real_half r) (imag_half t) idx
          + trilinear (imag_half h) (imag_half r) (real_half t) idx))"
  by (simp add: complex_interaction_components complex_components_rank3[OF sh ev bc]
      bind_result_def py_sum_four_tabulate)

lemma shape_scale [simp]: "shape (scale c x) = shape x"
  by (simp add: scale_def)

lemma wellformed_scale [simp]: "wellformed (scale c x) = wellformed x"
  by (simp add: scale_def wellformed_def map_tensor_def)

lemma scale_tabulate: "scale c (tabulate s f) = tabulate s (\<lambda>idx. c * f idx)"
  by (simp add: scale_def map_tensor_tabulate)

lemma entry_scale:
  "wellformed x \<Longrightarrow> valid_index (shape x) idx \<Longrightarrow> entry (scale c x) idx = c * entry x idx"
  by (simp add: scale_def entry_map_tensor)

lemma entry_all_zero:
  "all_zero x \<Longrightarrow> wellformed x \<Longrightarrow> valid_index (shape x) idx \<Longrightarrow> entry x idx = 0"
  by (simp add: all_zero_def entry_def wellformed_def list_all_length flat_index_less)

lemma operand_index_valid:
  "shape x = [xb, K, D] \<Longrightarrow> xb = B \<or> xb = 1 \<Longrightarrow> i < B \<Longrightarrow> j < K \<Longrightarrow> d < D
     \<Longrightarrow> valid_index (shape x) [unit_axis_index xb i, j, d]"
  by (simp add: unit_axis_index_valid)

lemma trilinear_scale3:
  assumes "wellformed t" and sh: "shape h = [hb, H, D]" "shape r = [rb, R, D]" "shape t = [tb, T, D]"
    and "tb = B \<or> tb = 1" and "i < B" "l < T"
  shows "trilinear h r (scale c t) [i, j, k, l] = c * trilinear h r t [i, j, k, l]"
proof -
  have "\<And>d. d < D \<Longrightarrow> entry (scale c t) [unit_axis_index tb i, l, d]
                        = c * entry t [unit_axis_index tb i, l, d]"
    using assms by (intro entry_scale operand_index_valid) simp_all
  then show ?thesis
    by (simp add: trilinear_def sh sum_distrib_left mult_ac)
qed

lemma trilinear_zero2:
  assumes "all_zero r" "wellformed r" and sh: "shape h = [hb, H, D]" "shape r = [rb, R, D]"
    and "rb = B \<or> rb = 1" and "i < B" "k < R"
  shows "trilinear h r t [i, j, k, l] = 0"
proof -
  have "\<And>d. d < D \<Longrightarrow> entry r [unit_axis_index rb i, k, d] = 0"
    using assms by (intro entry_all_zero operand_index_valid) simp_all
  then show ?thesis by (simp add: trilinear_def sh)
qed

lemma trilinear_zero1:
  assumes "all_zero h" "wellformed h" and sh: "shape h = [hb, H, D]"
    and "hb = B \<or> hb = 1" and "i < B" "j < H"
  shows "trilinear h r t [i, j, k, l] = 0"
proof -
  have "\<And>d. d < D \<Longrightarrow> entry h [unit_axis_index hb i, j, d] = 0"
    using assms by (intro entry_all_zero operand_index_valid) simp_all
  then show ?thesis by (simp add: trilinear_def sh)
qed

lemma tabulate4_cong:
  "(\<And>i j k l. i < a \<Longrightarrow> j < b \<Longrightarrow> k < c \<Longrightarrow> l < d \<Longrightarrow> f [i, j, k, l] = g [i, j, k, l])
     \<Longrightarrow> tabulate [a, b, c, d] f = tabulate [a, b, c, d] g"
  by (rule tabulate_cong) (auto simp: valid_index4)

lemma valid_index3_iff:
  "valid_index [a, b, c] idx = (\<exists>i j k. idx = [i, j, k] \<and> i < a \<and> j < b \<and> k < c)"
proof (cases idx)
  case (Cons i i1)
  then show ?thesis
  proof (cases i1)
    case (Cons j i2)
    then show ?thesis using \<open>idx = i # i1\<close>
      by (cases i2; cases "tl i2") auto
  qed simp
qed simp

lemma tabulate3_cong:
  "(\<And>i j k. i < a \<Longrightarrow> j < b \<Longrightarrow> k < c \<Longrightarrow> f [i, j, k] = g [i, j, k])
     \<Longrightarrow> tabulate [a, b, c] f = tabulate [a, b, c] g"
  by (rule tabulate_cong) (auto simp: valid_index3_iff)

lemma wellformed_real_half [simp]: "wellformed (real_half x)"
  by (simp add: real_half_def)

lemma wellformed_imag_half [simp]: "wellformed (imag_half x)"
  by (simp add: imag_half_def)

lemma entry_real_half:
  "shape x = [xb, K, D] \<Longrightarrow> a < xb \<Longrightarrow> j < K \<Longrightarrow> d < D div 2
     \<Longrightarrow> entry (real_half x) [a, j, d] = entry x [a, j, d]"
  by (simp add: real_half_def half_shape3 entry_tabulate)

lemma entry_imag_half:
  "shape x = [xb, K, D] \<Longrightarrow> a < xb \<Longrightarrow> j < K \<Longrightarrow> d < D div 2
     \<Longrightarrow> entry (imag_half x) [a, j, d] = entry x [a, j, d + D div 2]"
  by (simp add: imag_half_def half_shape3 entry_tabulate)

lemma shape_negate_imag [simp]: "shape (negate_imag x) = shape x"
  by (simp add: negate_imag_def)

lemma real_half_negate_imag:
  assumes "shape x = [xb, K, D]"
  shows "real_half (negate_imag x) = real_half x"
proof -
  have "tabulate [xb, K, D div 2] (\<lambda>idx. entry (negate_imag x) idx)
        = tabulate [xb, K, D div 2] (\<lambda>idx. entry x idx)"
  proof (rule tabulate3_cong)
    fix i j k assume "i < xb" "j < K" "k < D div 2"
    then have "valid_index [xb, K, D] [i, j, k]" by simp
    then show "entry (negate_imag x) [i, j, k] = entry x [i, j, k]"
      using \<open>k < D div 2\<close> by (simp add: negate_imag_def assms entry_tabulate)
  qed
  then show ?thesis by (simp add: real_half_def assms half_shape3)
qed

lemma imag_half_negate_imag:
  assumes "shape x = [xb, K, D]" "even D"
  shows "imag_half (negate_imag x) = scale (- 1) (imag_half x)"
proof -
  have "tabulate [xb, K, D div 2]
          (\<lambda>idx. entry (negate_imag x) (butlast idx @ [last idx + D div 2]))
        = tabulate [xb, K, D div 2]
          (\<lambda>idx. - 1 * entry x (butlast idx @ [last idx + D div 2]))"
  proof (rule tabulate3_cong)
    fix i j k assume lt: "i < xb" "j < K" "k < D div 2"
    then have "k + D div 2 < D" using assms(2) by (auto elim!: evenE)
    then have "valid_index [xb, K, D] [i, j, k + D div 2]" using lt by simp
    then show "entry (negate_imag x) (butlast [i, j, k] @ [last [i, j, k] + D div 2])
               = - 1 * entry x (butlast [i, j, k] @ [last [i, j, k] + D div 2])"
      by (simp add: negate_imag_def assms entry_tabulate)
  qed
  then show ?thesis by (simp add: imag_half_def assms half_shape3 scale_tabulate)
qed

lemma sum_split_halves:
  fixes f :: "nat \<Rightarrow> real"
  shows "(\<Sum>d<m + m. f d) = (\<Sum>d<m. f d) + (\<Sum>d<m. f (d + m))"
proof -
  have "(\<Sum>d<m + m. f d) = sum f {0..<m} + sum f {m..<m + m}"
    by (simp add: atLeast0LessThan[symmetric] sum.atLeastLessThan_concat)
  also have "sum f {m..<m + m} = (\<Sum>d = 0..<m. f (d + m))"
    using sum.shift_bounds_nat_ivl[of f 0 m m] by simp
  finally show ?thesis by (simp add: atLeast0LessThan)
qed

section \<open>Properties of DistMult and ComplEx\<close>

lemma entry_full:
  "valid_index s idx \<Longrightarrow> entry (full s v) idx = v"
  by (simp add: entry_def full_def flat_index_less)

lemma shape_full [simp]: "shape (full s v) = s"
  by (simp add: full_def)

text \<open>
  C2, as amended. Let \<open>h\<close>, \<open>r\<close>, \<open>t\<close> have rank 3, shapes \<open>(hb, H, D)\<close>, \<open>(rb, R, D)\<close>,
  \<open>(tb, T, D)\<close>, each leading extent being the common batch size \<open>B\<close> or 1. Then
  \<^verbatim>\<open>distmult_interaction\<close> returns a tensor of shape \<open>(B, H, R, T)\<close> whose entry at
  \<open>[i, j, k, l]\<close> is the sum over \<open>d\<close> of \<open>h[i, j, d] * r[i, k, d] * t[i, l, d]\<close>, an operand
  of leading extent 1 being read at batch index 0; nothing else is applied. In particular
  (the witness) all-ones operands of shape \<open>(2, 1, 4)\<close> give 4 in every entry. Operands of
  shape \<open>(2, 4)\<close>, without a candidate axis, make the contraction raise (the
  counterexample).
\<close>

theorem distmult_trilinear_sum:
  assumes sh: "shape h = [hb, H, D]" "shape r = [rb, R, D]" "shape t = [tb, T, D]"
    and bc: "hb = B \<or> hb = 1" "rb = B \<or> rb = 1" "tb = B \<or> tb = 1" "B = max hb (max rb tb)"
  shows "\<exists>y. distmult_interaction h r t = Inr y \<and> shape y = [B, H, R, T] \<and>
           (\<forall>i<B. \<forall>j<H. \<forall>k<R. \<forall>l<T.
              entry y [i, j, k, l] =
                (\<Sum>d<D. entry h [unit_axis_index hb i, j, d]
                        * entry r [unit_axis_index rb i, k, d]
                        * entry t [unit_axis_index tb i, l, d]))"
  by (rule distmult_rank3_entries[OF sh bc])

theorem distmult_trilinear_sum_witness:
  "\<exists>y. distmult_interaction (full [2, 1, 4] 1) (full [2, 1, 4] 1) (full [2, 1, 4] 1) = Inr y
     \<and> shape y = [2, 1, 1, 1] \<and> entry y [0, 0, 0, 0] = 4 \<and> entry y [1, 0, 0, 0] = 4"
proof -
  let ?x = "full [2, 1, 4] 1"
  have sh: "shape ?x = [2, 1, 4]" by simp
  have bc: "(2::nat) = 2 \<or> (2::nat) = 1" "(2::nat) = max 2 (max 2 2)" by simp_all
  from distmult_trilinear_sum [OF sh sh sh bc(1) bc(1) bc(1) bc(2)]
  obtain y where y: "distmult_interaction ?x ?x ?x = Inr y" "shape y = [2, 1, 1, 1]"
    and e: "\<forall>i<2. \<forall>j<1. \<forall>k<1. \<forall>l<1. entry y [i, j, k, l] =
       (\<Sum>d<4. entry ?x [unit_axis_index 2 i, j, d] * entry ?x [unit_axis_index 2 i, k, d]
               * entry ?x [unit_axis_index 2 i, l, d])"
    by blast
  have one: "\<And>i d. i < 2 \<Longrightarrow> d < 4 \<Longrightarrow> entry ?x [i, 0, d] = 1"
    by (rule entry_full) simp
  have "entry y [0, 0, 0, 0] = (\<Sum>d<4. entry ?x [0, 0, d] * entry ?x [0, 0, d] * entry ?x [0, 0, d])"
    using e by (simp add: unit_axis_index_def)
  also have "\<dots> = (\<Sum>d<(4::nat). 1)" using one by (intro sum.cong) simp_all
  finally have a: "entry y [0, 0, 0, 0] = 4" by simp
  have "entry y [1, 0, 0, 0] = (\<Sum>d<4. entry ?x [1, 0, d] * entry ?x [1, 0, d] * entry ?x [1, 0, d])"
    using e by (simp add: unit_axis_index_def)
  also have "\<dots> = (\<Sum>d<(4::nat). 1)" using one by (intro sum.cong) simp_all
  finally have b: "entry y [1, 0, 0, 0] = 4" by simp
  from y a b show ?thesis by blast
qed

theorem distmult_plain_embeddings_counterexample:
  "distmult_interaction (full [2, 4] 1) (full [2, 4] 1) (full [2, 4] 1)
     = Inl (runtime_error
        ''einsum(): output subscript does not appear in the equation for any input operand'')"
  by code_simp

text \<open>
  C3, as amended. For operands of rank 3 with shapes \<open>(hb, H, D)\<close>, \<open>(rb, R, D)\<close>,
  \<open>(tb, T, D)\<close>, each leading extent being the common batch size \<open>B\<close> or 1, the output of
  \<^verbatim>\<open>distmult_interaction\<close>, and for even \<open>D\<close> of \<^verbatim>\<open>complex_interaction\<close>, has shape exactly
  \<open>(B, H, R, T)\<close>. An operand of rank 2 is not given a candidate axis of extent 1: the
  contraction raises (the counterexample).
\<close>

theorem interaction_output_shape:
  assumes sh: "shape h = [hb, H, D]" "shape r = [rb, R, D]" "shape t = [tb, T, D]"
    and bc: "hb = B \<or> hb = 1" "rb = B \<or> rb = 1" "tb = B \<or> tb = 1" "B = max hb (max rb tb)"
  shows "(\<exists>y. distmult_interaction h r t = Inr y \<and> shape y = [B, H, R, T])
       \<and> (even D \<longrightarrow> (\<exists>y. complex_interaction h r t = Inr y \<and> shape y = [B, H, R, T]))"
  by (simp add: distmult_rank3[OF sh bc] complex_rank3[OF sh _ bc])

theorem interaction_output_shape_witness:
  "(\<exists>y. distmult_interaction (full [1, 2, 2] 1) (full [3, 1, 2] 1) (full [3, 4, 2] 1) = Inr y
        \<and> shape y = [3, 2, 1, 4])
   \<and> (\<exists>y. complex_interaction (full [1, 2, 2] 1) (full [3, 1, 2] 1) (full [3, 4, 2] 1) = Inr y
        \<and> shape y = [3, 2, 1, 4])"
proof -
  have sh: "shape (full [1, 2, 2] 1) = [1, 2, 2]" "shape (full [3, 1, 2] 1) = [3, 1, 2]"
    "shape (full [3, 4, 2] 1) = [3, 4, 2]" by simp_all
  have bc: "(1::nat) = 3 \<or> (1::nat) = 1" "(3::nat) = 3 \<or> (3::nat) = 1"
    "(3::nat) = max 1 (max 3 3)" by simp_all
  have ev: "even (2::nat)" by simp
  from interaction_output_shape [OF sh bc(1) bc(2) bc(2) bc(3)] ev show ?thesis by blast
qed

theorem interaction_rank2_counterexample:
  "distmult_interaction (full [2, 4] 1) (full [2, 3, 4] 1) (full [2, 5, 4] 1)
     = Inl (runtime_error
        ''einsum(): output subscript does not appear in the equation for any input operand'')
   \<and> complex_interaction (full [2, 4] 1) (full [2, 3, 4] 1) (full [2, 5, 4] 1)
     = Inl (runtime_error
        ''einsum(): output subscript does not appear in the equation for any input operand'')"
  by code_simp

text \<open>
  C8. If \<open>h\<close> has leading extent 1 while \<open>r\<close> and \<open>t\<close> have leading extent \<open>B > 1\<close>, the
  output of \<^verbatim>\<open>distmult_interaction\<close> has batch extent \<open>B\<close>, and the score in every batch
  slice \<open>i\<close> is computed from the same head embedding \<open>h[0, j, \<cdot>]\<close>.
\<close>

theorem distmult_broadcast_head:
  assumes sh: "shape h = [1, H, D]" "shape r = [B, R, D]" "shape t = [B, T, D]" and B: "1 < B"
  shows "\<exists>y. distmult_interaction h r t = Inr y \<and> shape y = [B, H, R, T] \<and>
           (\<forall>i<B. \<forall>j<H. \<forall>k<R. \<forall>l<T.
              entry y [i, j, k, l] =
                (\<Sum>d<D. entry h [0, j, d] * entry r [i, k, d] * entry t [i, l, d]))"
proof -
  have bc: "1 = B \<or> (1::nat) = 1" "B = B \<or> B = 1" "B = max 1 (max B B)"
    using B by simp_all
  have u: "unit_axis_index (Suc 0) i = 0" "unit_axis_index B i = i" for i
    using B by (simp_all add: unit_axis_index_def)
  show ?thesis
    using distmult_rank3_entries [OF sh bc(1) bc(2) bc(2) bc(3)] by (simp add: u)
qed

theorem distmult_broadcast_head_witness:
  "\<exists>y. distmult_interaction \<lparr>shape = [1, 1, 2], data = [2, 3]\<rparr>
          \<lparr>shape = [2, 1, 2], data = [1, 1, 10, 10]\<rparr> (full [2, 1, 2] 1) = Inr y
     \<and> shape y = [2, 1, 1, 1] \<and> entry y [0, 0, 0, 0] = 5 \<and> entry y [1, 0, 0, 0] = 50"
proof -
  let ?h = "\<lparr>shape = [1, 1, 2], data = [2, 3]\<rparr>"
  let ?r = "\<lparr>shape = [2, 1, 2], data = [1, 1, 10, 10]\<rparr>"
  let ?t = "full [2, 1, 2] 1"
  have sh: "shape ?h = [1, 1, 2]" "shape ?r = [2, 1, 2]" "shape ?t = [2, 1, 2]" by simp_all
  have B: "1 < (2::nat)" by simp
  from distmult_broadcast_head [OF sh B]
  obtain y where y: "distmult_interaction ?h ?r ?t = Inr y" "shape y = [2, 1, 1, 1]"
    and e: "\<forall>i<2. \<forall>j<1. \<forall>k<1. \<forall>l<1. entry y [i, j, k, l] =
       (\<Sum>d<2. entry ?h [0, j, d] * entry ?r [i, k, d] * entry ?t [i, l, d])"
    by blast
  have s2: "(\<Sum>d<2. f d) = f 0 + f 1" for f :: "nat \<Rightarrow> real"
    by (simp add: numeral_2_eq_2)
  have a: "entry y [0, 0, 0, 0] = 5"
    using e by (simp add: s2 entry_def full_def)
  have b: "entry y [1, 0, 0, 0] = 50"
    using e by (simp add: s2 entry_def full_def)
  from y a b show ?thesis by blast
qed

lemma trilinear_real_inputs:
  assumes sh: "shape h = [hb, H, D]" "shape r = [rb, R, D]" "shape t = [tb, T, D]"
    and ev: "even D"
    and bc: "hb = B \<or> hb = 1" "rb = B \<or> rb = 1" "tb = B \<or> tb = 1"
    and zero: "all_zero (imag_half h)"
    and lt: "i < B" "j < H" "k < R" "l < T"
  shows "trilinear h r t [i, j, k, l]
         = trilinear (real_half h) (real_half r) (real_half t) [i, j, k, l]"
proof -
  define m where "m = D div 2"
  have D: "D = m + m" using ev by (auto simp: m_def elim!: evenE)
  have ih: "unit_axis_index hb i < hb" and ir: "unit_axis_index rb i < rb"
    and it: "unit_axis_index tb i < tb"
    using unit_axis_index_valid[OF bc(1) lt(1)] unit_axis_index_valid[OF bc(2) lt(1)]
      unit_axis_index_valid[OF bc(3) lt(1)] by simp_all
  have im: "entry h [unit_axis_index hb i, j, d + m] = 0" if "d < m" for d
  proof -
    have "entry (imag_half h) [unit_axis_index hb i, j, d] = 0"
      using zero that ih lt(2)
      by (intro entry_all_zero) (simp_all add: shape_imag_half sh half_shape3 m_def)
    then show ?thesis
      using entry_imag_half[OF sh(1) ih lt(2), of d] that by (simp add: m_def)
  qed
  have re: "entry h [unit_axis_index hb i, j, d] * entry r [unit_axis_index rb i, k, d]
              * entry t [unit_axis_index tb i, l, d]
          = entry (real_half h) [unit_axis_index hb i, j, d]
              * entry (real_half r) [unit_axis_index rb i, k, d]
              * entry (real_half t) [unit_axis_index tb i, l, d]" if "d < m" for d
    using that entry_real_half[OF sh(1) ih lt(2), of d] entry_real_half[OF sh(2) ir lt(3), of d]
      entry_real_half[OF sh(3) it lt(4), of d]
    by (simp add: m_def)
  have "trilinear h r t [i, j, k, l]
        = (\<Sum>d<m + m. entry h [unit_axis_index hb i, j, d] * entry r [unit_axis_index rb i, k, d]
              * entry t [unit_axis_index tb i, l, d])"
    by (simp add: trilinear_def sh D)
  also have "\<dots> = (\<Sum>d<m. entry h [unit_axis_index hb i, j, d]
              * entry r [unit_axis_index rb i, k, d] * entry t [unit_axis_index tb i, l, d])"
    by (simp add: sum_split_halves im)
  also have "\<dots> = (\<Sum>d<m. entry (real_half h) [unit_axis_index hb i, j, d]
              * entry (real_half r) [unit_axis_index rb i, k, d]
              * entry (real_half t) [unit_axis_index tb i, l, d])"
    by (rule sum.cong) (simp_all add: re)
  also have "\<dots> = trilinear (real_half h) (real_half r) (real_half t) [i, j, k, l]"
    by (simp add: trilinear_def shape_real_half sh half_shape3 m_def)
  finally show ?thesis .
qed

text \<open>
  C5. For operands of rank 3 as above with an even trailing extent, whose imaginary
  halves are all zero, \<^verbatim>\<open>complex_interaction\<close> returns the very tensor that
  \<^verbatim>\<open>distmult_interaction\<close> returns on the real halves, which is also the one it returns on
  the operands themselves. In particular (the witness) for \<open>h = r = t\<close> of shape
  \<open>(1, 1, 4)\<close> with real half 1 and imaginary half 0 the score is 2.
\<close>

theorem complex_real_inputs_distmult:
  assumes sh: "shape h = [hb, H, D]" "shape r = [rb, R, D]" "shape t = [tb, T, D]"
    and ev: "even D"
    and bc: "hb = B \<or> hb = 1" "rb = B \<or> rb = 1" "tb = B \<or> tb = 1" "B = max hb (max rb tb)"
    and zero: "all_zero (imag_half h)" "all_zero (imag_half r)" "all_zero (imag_half t)"
  shows "\<exists>y. complex_interaction h r t = Inr y
           \<and> distmult_interaction (real_half h) (real_half r) (real_half t) = Inr y
           \<and> distmult_interaction h r t = Inr y"
proof -
  let ?re = "trilinear (real_half h) (real_half r) (real_half t)"
  have rh: "shape (real_half h) = [hb, H, D div 2]" "shape (imag_half h) = [hb, H, D div 2]"
    and rr: "shape (real_half r) = [rb, R, D div 2]" "shape (imag_half r) = [rb, R, D div 2]"
    and rt: "shape (real_half t) = [tb, T, D div 2]" "shape (imag_half t) = [tb, T, D div 2]"
    by (simp_all add: shape_real_half shape_imag_half sh half_shape3)
  have "tabulate [B, H, R, T] (\<lambda>idx. ?re idx
          + trilinear (real_half h) (imag_half r) (imag_half t) idx
          + trilinear (imag_half h) (real_half r) (imag_half t) idx
          + trilinear (imag_half h) (imag_half r) (real_half t) idx)
        = tabulate [B, H, R, T] ?re"
  proof (rule tabulate4_cong)
    fix i j k l assume lt: "i < B" "j < H" "k < R" "l < T"
    have "trilinear (real_half h) (imag_half r) (imag_half t) [i, j, k, l] = 0"
      using zero(2) rh(1) rr(2) bc(2) lt(1,3) by (intro trilinear_zero2) simp_all
    moreover have "trilinear (imag_half h) (real_half r) (imag_half t) [i, j, k, l] = 0"
      using zero(1) rh(2) bc(1) lt(1,2) by (intro trilinear_zero1) simp_all
    moreover have "trilinear (imag_half h) (imag_half r) (real_half t) [i, j, k, l] = 0"
      using zero(1) rh(2) bc(1) lt(1,2) by (intro trilinear_zero1) simp_all
    ultimately show "?re [i, j, k, l]
          + trilinear (real_half h) (imag_half r) (imag_half t) [i, j, k, l]
          + trilinear (imag_half h) (real_half r) (imag_half t) [i, j, k, l]
          + trilinear (imag_half h) (imag_half r) (real_half t) [i, j, k, l]
          = ?re [i, j, k, l]"
      by simp
  qed
  then have c: "complex_interaction h r t = Inr (tabulate [B, H, R, T] ?re)"
    by (simp add: complex_rank3[OF sh ev bc])
  have d: "distmult_interaction (real_half h) (real_half r) (real_half t)
           = Inr (tabulate [B, H, R, T] ?re)"
    by (rule distmult_rank3[OF rh(1) rr(1) rt(1) bc])
  have "tabulate [B, H, R, T] (trilinear h r t) = tabulate [B, H, R, T] ?re"
    by (rule tabulate4_cong) (rule trilinear_real_inputs[OF sh ev bc(1-3) zero(1)])
  then have e: "distmult_interaction h r t = Inr (tabulate [B, H, R, T] ?re)"
    by (simp add: distmult_rank3[OF sh bc])
  from c d e show ?thesis by blast
qed

theorem complex_real_inputs_distmult_witness:
  "complex_interaction \<lparr>shape = [1, 1, 4], data = [1, 1, 0, 0]\<rparr>
      \<lparr>shape = [1, 1, 4], data = [1, 1, 0, 0]\<rparr> \<lparr>shape = [1, 1, 4], data = [1, 1, 0, 0]\<rparr>
     = Inr \<lparr>shape = [1, 1, 1, 1], data = [2]\<rparr>"
proof -
  let ?x = "\<lparr>shape = [1, 1, 4], data = [1, 1, 0, 0]\<rparr>"
  have sh: "shape ?x = [1, 1, 4]" by simp
  have ev: "even (4::nat)" by simp
  have bc: "(1::nat) = 1 \<or> (1::nat) = 1" "(1::nat) = max 1 (max 1 1)" by simp_all
  have zero: "all_zero (imag_half ?x)" by code_simp
  have d: "distmult_interaction ?x ?x ?x = Inr \<lparr>shape = [1, 1, 1, 1], data = [2]\<rparr>"
    by code_simp
  from complex_real_inputs_distmult [OF sh sh sh ev bc(1) bc(1) bc(1) bc(2) zero zero zero] d
  show ?thesis by auto
qed

text \<open>
  C9, as amended. Negating the imaginary half of \<open>t\<close> alone leaves its real half as it
  is, and of the four contractions that \<^verbatim>\<open>complex_interaction\<close> sums, in the order
  (re, re, re), (re, im, im), (im, re, im), (im, im, re), it negates exactly the second
  and the third, the two that contain the imaginary half of \<open>t\<close>; the first and the fourth
  are unchanged. The counterexample shows the second negated and the fourth unchanged.
\<close>

theorem complex_negate_imag_tail:
  assumes sh: "shape h = [hb, H, D]" "shape r = [rb, R, D]" "shape t = [tb, T, D]"
    and ev: "even D"
    and bc: "hb = B \<or> hb = 1" "rb = B \<or> rb = 1" "tb = B \<or> tb = 1" "B = max hb (max rb tb)"
  shows "real_half (negate_imag t) = real_half t
       \<and> imag_half (negate_imag t) = scale (- 1) (imag_half t)
       \<and> (\<exists>c1 c2 c3 c4.
             complex_components h r t = Inr [Inr c1, Inr c2, Inr c3, Inr c4]
           \<and> complex_components h r (negate_imag t)
               = Inr [Inr c1, Inr (scale (- 1) c2), Inr (scale (- 1) c3), Inr c4])"
proof -
  let ?im = "imag_half t"
  have re: "real_half (negate_imag t) = real_half t"
    by (rule real_half_negate_imag[OF sh(3)])
  have im: "imag_half (negate_imag t) = scale (- 1) ?im"
    by (rule imag_half_negate_imag[OF sh(3) ev])
  have sh': "shape (negate_imag t) = [tb, T, D]" by (simp add: sh)
  have rh: "shape (real_half h) = [hb, H, D div 2]" "shape (imag_half h) = [hb, H, D div 2]"
    and rr: "shape (real_half r) = [rb, R, D div 2]" "shape (imag_half r) = [rb, R, D div 2]"
    and rt: "shape ?im = [tb, T, D div 2]"
    by (simp_all add: shape_real_half shape_imag_half sh half_shape3)
  have wf: "wellformed ?im" by simp
  have s2: "tabulate [B, H, R, T] (trilinear (real_half h) (imag_half r) (scale (- 1) ?im))
            = scale (- 1) (tabulate [B, H, R, T] (trilinear (real_half h) (imag_half r) ?im))"
    unfolding scale_tabulate
    by (rule tabulate4_cong) (rule trilinear_scale3[OF wf rh(1) rr(2) rt bc(3)])
  have s3: "tabulate [B, H, R, T] (trilinear (imag_half h) (real_half r) (scale (- 1) ?im))
            = scale (- 1) (tabulate [B, H, R, T] (trilinear (imag_half h) (real_half r) ?im))"
    unfolding scale_tabulate
    by (rule tabulate4_cong) (rule trilinear_scale3[OF wf rh(2) rr(1) rt bc(3)])
  show ?thesis
    using complex_components_rank3[OF sh ev bc] complex_components_rank3[OF sh(1,2) sh' ev bc]
    by (simp add: re im s2 s3)
qed

theorem complex_negate_imag_tail_witness:
  "complex_components \<lparr>shape = [1, 1, 2], data = [1, 1]\<rparr> \<lparr>shape = [1, 1, 2], data = [1, 1]\<rparr>
      (negate_imag \<lparr>shape = [1, 1, 2], data = [1, 1]\<rparr>)
     = Inr [Inr \<lparr>shape = [1, 1, 1, 1], data = [1]\<rparr>, Inr \<lparr>shape = [1, 1, 1, 1], data = [- 1]\<rparr>,
            Inr \<lparr>shape = [1, 1, 1, 1], data = [- 1]\<rparr>, Inr \<lparr>shape = [1, 1, 1, 1], data = [1]\<rparr>]"
proof -
  let ?x = "\<lparr>shape = [1, 1, 2], data = [1, 1]\<rparr>"
  have sh: "shape ?x = [1, 1, 2]" by simp
  have ev: "even (2::nat)" by simp
  have bc: "(1::nat) = 1 \<or> (1::nat) = 1" "(1::nat) = max 1 (max 1 1)" by simp_all
  have plain: "complex_components ?x ?x ?x
     = Inr [Inr \<lparr>shape = [1, 1, 1, 1], data = [1]\<rparr>, Inr \<lparr>shape = [1, 1, 1, 1], data = [1]\<rparr>,
            Inr \<lparr>shape = [1, 1, 1, 1], data = [1]\<rparr>, Inr \<lparr>shape = [1, 1, 1, 1], data = [1]\<rparr>]"
    by code_simp
  from complex_negate_imag_tail [OF sh sh sh ev bc(1) bc(1) bc(1) bc(2)] plain
  show ?thesis by (auto simp: scale_def map_tensor_def)
qed

theorem complex_negate_imag_tail_counterexample:
  "complex_components \<lparr>shape = [1, 1, 2], data = [1, 2]\<rparr> \<lparr>shape = [1, 1, 2], data = [3, 4]\<rparr>
      \<lparr>shape = [1, 1, 2], data = [5, 6]\<rparr>
     = Inr [Inr \<lparr>shape = [1, 1, 1, 1], data = [15]\<rparr>, Inr \<lparr>shape = [1, 1, 1, 1], data = [24]\<rparr>,
            Inr \<lparr>shape = [1, 1, 1, 1], data = [36]\<rparr>, Inr \<lparr>shape = [1, 1, 1, 1], data = [40]\<rparr>]
   \<and> complex_components \<lparr>shape = [1, 1, 2], data = [1, 2]\<rparr> \<lparr>shape = [1, 1, 2], data = [3, 4]\<rparr>
      (negate_imag \<lparr>shape = [1, 1, 2], data = [5, 6]\<rparr>)
     = Inr [Inr \<lparr>shape = [1, 1, 1, 1], data = [15]\<rparr>, Inr \<lparr>shape = [1, 1, 1, 1], data = [- 24]\<rparr>,
            Inr \<lparr>shape = [1, 1, 1, 1], data = [- 36]\<rparr>, Inr \<lparr>shape = [1, 1, 1, 1], data = [40]\<rparr>]
   \<and> negate_imag \<lparr>shape = [1, 1, 2], data = [5, 6]\<rparr> = \<lparr>shape = [1, 1, 2], data = [5, - 6]\<rparr>"
  by code_simp

text \<open>
  C1. What the code computes on \<open>h = r = (0 + 1i)\<close>, \<open>t = (1 + 0i)\<close>, each of shape
  \<open>(1, 1, 2)\<close>: only the fourth contraction, Im(h) Im(r) Re(t) = 1, is not zero, and it is
  added, so the score is \<open>1\<close>. The Hermitian product of the claim subtracts it and gives
  \<open>- 1\<close>.
\<close>

theorem complex_fourth_term_added:
  "complex_components \<lparr>shape = [1, 1, 2], data = [0, 1]\<rparr> \<lparr>shape = [1, 1, 2], data = [0, 1]\<rparr>
      \<lparr>shape = [1, 1, 2], data = [1, 0]\<rparr>
     = Inr [Inr \<lparr>shape = [1, 1, 1, 1], data = [0]\<rparr>, Inr \<lparr>shape = [1, 1, 1, 1], data = [0]\<rparr>,
            Inr \<lparr>shape = [1, 1, 1, 1], data = [0]\<rparr>, Inr \<lparr>shape = [1, 1, 1, 1], data = [1]\<rparr>]
   \<and> complex_interaction \<lparr>shape = [1, 1, 2], data = [0, 1]\<rparr> \<lparr>shape = [1, 1, 2], data = [0, 1]\<rparr>
      \<lparr>shape = [1, 1, 2], data = [1, 0]\<rparr>
     = Inr \<lparr>shape = [1, 1, 1, 1], data = [1]\<rparr>"
  by code_simp

section \<open>DistMult under rounding\<close>






lemma shape_scale_rounded [simp]: "shape (scale_rounded rnd c x) = shape x"
  by (simp add: scale_rounded_def)





subsection \<open>Rounding and the sign\<close>






subsection \<open>Scaling one operand\<close>






section \<open>The driver-fault wrapper around ConvE\<close>

lemma conve_interaction_Inr:
  "conve_body L Z h r t t_bias s = (Inr v, s1) \<Longrightarrow>
   conve_interaction cls L Z h r t t_bias s = (Inr v, s1)"
  by (simp add: conve_interaction_def add_cuda_warning_def)

lemma conve_interaction_Inl:
  "conve_body L Z h r t t_bias s = (Inl e, s1) \<Longrightarrow>
   conve_interaction cls L Z h r t t_bias s =
     (if isinstance_RuntimeError e then
        (case cls e s1 of
           (False, s2) \<Rightarrow> (Inl e, s2)
         | (True, s2) \<Rightarrow> (Inl (Exn RuntimeError cuda_warning_message (Some e)), s2))
      else (Inl e, s1))"
  by (simp add: conve_interaction_def add_cuda_warning_def)

text \<open>
  C4. Let the undecorated ConvE computation, run once from state \<open>s\<close>, raise \<open>e\<close> and leave
  state \<open>s1\<close>. If \<open>e\<close> is a \<^verbatim>\<open>RuntimeError\<close> that the classifier recognises, the call raises
  one new \<^verbatim>\<open>RuntimeError\<close> whose message ends with the advice to reduce the batch size and
  whose cause is \<open>e\<close>. If the classifier does not recognise it, or if \<open>e\<close> is not a
  \<^verbatim>\<open>RuntimeError\<close>, the call raises \<open>e\<close> itself. In each case the final state is the one
  left by that single run (followed by the classifier's consultation when there is one):
  the computation is not run again.
\<close>

theorem conve_driver_fault_relabelled:
  assumes "conve_body L Z h r t t_bias s = (Inl e, s1)"
  shows "(isinstance_RuntimeError e \<and> is_cudnn_error e s1 = (True, s2) \<longrightarrow>
            conve_interaction is_cudnn_error L Z h r t t_bias s =
              (Inl (Exn RuntimeError cuda_warning_message (Some e)), s2)
            \<and> suffix ''To avoid this error, the batch size has to be reduced.''
                 cuda_warning_message)
       \<and> (isinstance_RuntimeError e \<and> is_cudnn_error e s1 = (False, s2) \<longrightarrow>
            conve_interaction is_cudnn_error L Z h r t t_bias s = (Inl e, s2))
       \<and> (\<not> isinstance_RuntimeError e \<longrightarrow>
            conve_interaction is_cudnn_error L Z h r t t_bias s = (Inl e, s1))"
  using assms by (simp add: conve_interaction_Inl cuda_warning_message_def suffix_def)

theorem conve_driver_fault_relabelled_witness:
  "conve_interaction (message_classifier ''cuDNN error: CUDNN_STATUS_EXECUTION_FAILED'')
     (example_layers (raising_layer (runtime_error ''cuDNN error: CUDNN_STATUS_EXECUTION_FAILED'')))
     example_sizes (full [2, 1, 1] 1) (full [2, 1, 1] 1) (full [2, 1, 1] 1) (full [2, 1] 0) (0, 0)
   = (Inl (Exn RuntimeError cuda_warning_message
        (Some (runtime_error ''cuDNN error: CUDNN_STATUS_EXECUTION_FAILED''))), (1, 1))
   \<and> conve_interaction (message_classifier ''cuDNN error: CUDNN_STATUS_EXECUTION_FAILED'')
     (example_layers (raising_layer (runtime_error ''out of memory'')))
     example_sizes (full [2, 1, 1] 1) (full [2, 1, 1] 1) (full [2, 1, 1] 1) (full [2, 1] 0) (0, 0)
   = (Inl (runtime_error ''out of memory''), (1, 1))
   \<and> conve_interaction (message_classifier ''cuDNN error: CUDNN_STATUS_EXECUTION_FAILED'')
     (example_layers (raising_layer (index_error ''out of range'')))
     example_sizes (full [2, 1, 1] 1) (full [2, 1, 1] 1) (full [2, 1, 1] 1) (full [2, 1] 0) (0, 0)
   = (Inl (index_error ''out of range''), (1, 0))"
proof -
  let ?m = "''cuDNN error: CUDNN_STATUS_EXECUTION_FAILED''"
  let ?e = "runtime_error ?m"
  let ?e' = "runtime_error ''out of memory''"
  let ?e'' = "index_error ''out of range''"
  have run: "conve_body (example_layers (raising_layer ?e)) example_sizes
       (full [2, 1, 1] 1) (full [2, 1, 1] 1) (full [2, 1, 1] 1) (full [2, 1] 0) (0, 0)
     = (Inl ?e, (1, 0))"
    by code_simp
  have run': "conve_body (example_layers (raising_layer ?e')) example_sizes
       (full [2, 1, 1] 1) (full [2, 1, 1] 1) (full [2, 1, 1] 1) (full [2, 1] 0) (0, 0)
     = (Inl ?e', (1, 0))"
    by code_simp
  have run'': "conve_body (example_layers (raising_layer ?e'')) example_sizes
       (full [2, 1, 1] 1) (full [2, 1, 1] 1) (full [2, 1, 1] 1) (full [2, 1] 0) (0, 0)
     = (Inl ?e'', (1, 0))"
    by code_simp
  have rt: "isinstance_RuntimeError ?e" "isinstance_RuntimeError ?e'"
    "\<not> isinstance_RuntimeError ?e''"
    by (simp_all add: runtime_error_def index_error_def)
  have known: "message_classifier ?m ?e (1, 0) = (True, (1, 1))"
    by (simp add: message_classifier_def runtime_error_def)
  have unknown: "message_classifier ?m ?e' (1, 0) = (False, (1, 1))"
    by (simp add: message_classifier_def runtime_error_def)
  from conve_driver_fault_relabelled [OF run, of "message_classifier ?m" "(1, 1)"] rt(1) known
  have a: "conve_interaction (message_classifier ?m) (example_layers (raising_layer ?e))
     example_sizes (full [2, 1, 1] 1) (full [2, 1, 1] 1) (full [2, 1, 1] 1) (full [2, 1] 0) (0, 0)
     = (Inl (Exn RuntimeError cuda_warning_message (Some ?e)), (1, 1))"
    by blast
  from conve_driver_fault_relabelled [OF run', of "message_classifier ?m" "(1, 1)"] rt(2) unknown
  have b: "conve_interaction (message_classifier ?m) (example_layers (raising_layer ?e'))
     example_sizes (full [2, 1, 1] 1) (full [2, 1, 1] 1) (full [2, 1, 1] 1) (full [2, 1] 0) (0, 0)
     = (Inl ?e', (1, 1))"
    by blast
  from conve_driver_fault_relabelled [OF run'', of "message_classifier ?m" "(1, 1)"] rt(3)
  have c: "conve_interaction (message_classifier ?m) (example_layers (raising_layer ?e''))
     example_sizes (full [2, 1, 1] 1) (full [2, 1, 1] 1) (full [2, 1, 1] 1) (full [2, 1] 0) (0, 0)
     = (Inl ?e'', (1, 0))"
    by blast
  from a b c show ?thesis by simp
qed

text \<open>
  C10. Only instances of \<^verbatim>\<open>RuntimeError\<close> are intercepted. When the undecorated computation
  raises an exception \<open>e\<close> that is not one, the call raises \<open>e\<close> itself, and the final state
  is the one the computation left: whatever the classifier is, and whatever it would
  answer on \<open>e\<close>, it has not been consulted.
\<close>

theorem conve_other_exception_untouched:
  assumes "conve_body L Z h r t t_bias s = (Inl e, s1)" and "\<not> isinstance_RuntimeError e"
  shows "conve_interaction is_cudnn_error L Z h r t t_bias s = (Inl e, s1)"
  using assms by (simp add: conve_interaction_Inl)

theorem conve_other_exception_untouched_witness:
  "conve_interaction (message_classifier ''cuDNN error: CUDNN_STATUS_EXECUTION_FAILED'')
     (example_layers (raising_layer
        (Exn (Other_class ''ValueError'') ''cuDNN error: CUDNN_STATUS_EXECUTION_FAILED'' None)))
     example_sizes (full [2, 1, 1] 1) (full [2, 1, 1] 1) (full [2, 1, 1] 1) (full [2, 1] 0) (0, 0)
   = (Inl (Exn (Other_class ''ValueError'') ''cuDNN error: CUDNN_STATUS_EXECUTION_FAILED'' None),
      (1, 0))"
proof -
  let ?e = "Exn (Other_class ''ValueError'') ''cuDNN error: CUDNN_STATUS_EXECUTION_FAILED'' None"
  have run: "conve_body (example_layers (raising_layer ?e)) example_sizes
       (full [2, 1, 1] 1) (full [2, 1, 1] 1) (full [2, 1, 1] 1) (full [2, 1] 0) (0, 0)
     = (Inl ?e, (1, 0))"
    by code_simp
  have other: "\<not> isinstance_RuntimeError ?e" by simp
  show ?thesis using conve_other_exception_untouched [OF run other] .
qed

section \<open>ConvE: the shape of the scores and the bias\<close>

lemma bind_prog_assoc:
  "bind_prog (bind_prog m f) g = bind_prog m (\<lambda>x. bind_prog (f x) g)"
  by (rule ext) (simp add: bind_prog_def split: prod.splits sum.splits)

lemma bind_prog_case_prod:
  "bind_prog (case p of (a, b) \<Rightarrow> f a b) g = (case p of (a, b) \<Rightarrow> bind_prog (f a b) g)"
  by (cases p) simp

lemma bind_prog_return: "bind_prog (lift_result (Inr v)) f = f v"
  by (rule ext) (simp add: bind_prog_def lift_result_def)

lemma broadcast_dim_one [simp]: "broadcast_dim a (Suc 0) = Inr a"
  by (simp add: broadcast_dim_def)

lemma broadcast_dim_same [simp]: "broadcast_dim a a = Inr a"
  by (simp add: broadcast_dim_def)

lemma broadcast_dim_index:
  "broadcast_dim a b = Inr c \<Longrightarrow> i < c \<Longrightarrow> unit_axis_index b i < b \<and> unit_axis_index a i < a"
  by (auto simp: broadcast_dim_def unit_axis_index_def split: if_splits)

lemma broadcast_dim_batch:
  "broadcast_dim B tb = Inr c \<Longrightarrow> tb = B \<or> tb = 1 \<Longrightarrow> c = B"
  by (auto simp: broadcast_dim_def split: if_splits)

lemma view_bias:
  "view x [int a, 1, 1, int d] =
     (if a * d \<noteq> numel (shape x) then
        Inl (runtime_error ''shape is invalid for input of this size'')
      else Inr (x\<lparr>shape := [a, 1, 1, d]\<rparr>))"
  by (simp add: view_def Let_def)

lemma view_product:
  "view x [int a, int b, int c, 1, E] = Inr y \<Longrightarrow> \<exists>e. shape y = [a, b, c, 1, e]"
  by (auto simp: view_def Let_def split: if_splits)

lemma view_tail:
  "view x [int a, 1, 1, int d, E] = Inr y \<Longrightarrow> \<exists>e. shape y = [a, 1, 1, d, e]"
  by (auto simp: view_def Let_def split: if_splits)

lemma bind_result_Inr:
  "bind_result m f = Inr y \<longleftrightarrow> (\<exists>v. m = Inr v \<and> f v = Inr y)"
  by (cases m) (simp_all add: bind_result_def)

lemma transpose_last2_shape5:
  "shape x = [a, b, c, d, e] \<Longrightarrow> transpose_last2 x = Inr y \<Longrightarrow> shape y = [a, b, c, e, d]"
  by (auto simp: transpose_last2_def swap_last2_def)

lemma squeeze_m2_shape5:
  "shape m = [c, H, R, 1, T] \<Longrightarrow> squeeze_m2 m = Inr x \<Longrightarrow> shape x = [c, H, R, T]"
  by (auto simp: squeeze_m2_def)

lemma conve_input_sizes:
  assumes "conve_input Z h r t = Inr (x, B, H, R, T)"
  shows "B = max (shape h ! 0) (max (shape r ! 0) (shape t ! 0))
       \<and> H = shape h ! 1 \<and> R = shape r ! 1 \<and> T = shape t ! 1"
  using assms
  by (auto simp: conve_input_def bind_result_Inr shape_at_def Let_def split: if_splits)

lemma bind_prog_Inr:
  "bind_prog m f s = (Inr y, s') \<longleftrightarrow> (\<exists>v s1. m s = (Inr v, s1) \<and> f v s1 = (Inr y, s'))"
  by (auto simp: bind_prog_def split: prod.splits sum.splits)

lemma lift_result_Inr: "lift_result m s = (Inr y, s') \<longleftrightarrow> m = Inr y \<and> s' = s"
  by (auto simp: lift_result_def)

lemma broadcast_shapes4:
  "broadcast_shapes [c, H, R, T] [tb, Suc 0, Suc 0, T] =
     bind_result (broadcast_dim c tb) (\<lambda>c'. Inr [c', H, R, T])"
  by (cases "broadcast_dim c tb") (simp_all add: broadcast_shapes_def bind_result_def)

lemma broadcast_index4_self:
  "i < c \<Longrightarrow> j < H \<Longrightarrow> k < R \<Longrightarrow> l < T
     \<Longrightarrow> broadcast_index [c, H, R, T] [i, j, k, l] = [i, j, k, l]"
  by (simp add: broadcast_index_same)

lemma broadcast_index4_bias:
  "l < T \<Longrightarrow> broadcast_index [tb, Suc 0, Suc 0, T] [i, j, k, l]
     = [unit_axis_index tb i, 0, 0, l]"
  by (simp add: broadcast_index_def unit_axis_index_def)

lemma shape_shift [simp]: "shape (shift c x) = shape x"
  by (simp add: shift_def)

lemma shift_tabulate: "shift c (tabulate s f) = tabulate s (\<lambda>idx. f idx + c)"
  by (simp add: shift_def map_tensor_tabulate)

lemma conve_body_rounded_split:
  "conve_body_rounded rnd L Z h r t t_bias =
     bind_prog (conve_before_bias_rounded rnd L Z h r t)
       (\<lambda>(x, t', num_tails). lift_result (conve_add_bias_rounded rnd num_tails x t' t_bias))"
  unfolding conve_body_rounded_def conve_before_bias_rounded_def
  by (simp add: bind_prog_assoc bind_prog_case_prod bind_prog_return case_prod_unfold)

lemma conve_interaction_rounded_Inr_iff:
  "conve_interaction_rounded rnd cls L Z h r t t_bias s = (Inr y, s')
     \<longleftrightarrow> conve_body_rounded rnd L Z h r t t_bias s = (Inr y, s')"
  by (auto simp: conve_interaction_rounded_def add_cuda_warning_def
      split: prod.splits sum.splits bool.splits if_splits)

lemma matmul_rounded_shape5:
  assumes "shape x = [B, H, R, 1, e]" "shape t' = [tb, 1, 1, e', T]"
    "matmul_rounded rnd x t' = Inr m"
  shows "\<exists>c. broadcast_dim B tb = Inr c \<and> shape m = [c, H, R, 1, T]"
  using assms
  by (auto simp: matmul_rounded_def Let_def broadcast_shapes_def bind_result_Inr split: if_splits)

lemma conve_matmul_rounded_shape:
  assumes "conve_matmul_rounded rnd Z B H R T x t = Inr (x'', t')"
  shows "\<exists>c e. length (shape t) > 0 \<and> broadcast_dim B (shape t ! 0) = Inr c
            \<and> shape x'' = [c, H, R, T] \<and> shape t' = [shape t ! 0, 1, 1, e, T]"
proof -
  from assms obtain x5 tv m where
    v1: "view x [int B, int H, int R, 1, embedding_dim Z] = Inr x5"
    and t0: "0 < length (shape t)"
    and v2: "view t [int (shape t ! 0), 1, 1, int T, embedding_dim Z] = Inr tv"
    and tr: "transpose_last2 tv = Inr t'"
    and mm: "matmul_rounded rnd x5 t' = Inr m"
    and sq: "squeeze_m2 m = Inr x''"
    by (auto simp: conve_matmul_rounded_def bind_result_Inr shape_at_def split: if_splits)
  from view_product[OF v1] obtain e where s5: "shape x5 = [B, H, R, 1, e]" by blast
  from view_tail[OF v2] obtain e' where st: "shape tv = [shape t ! 0, 1, 1, T, e']" by blast
  have st': "shape t' = [shape t ! 0, 1, 1, e', T]" by (rule transpose_last2_shape5[OF st tr])
  from matmul_rounded_shape5[OF s5 st' mm] obtain c where
    c: "broadcast_dim B (shape t ! 0) = Inr c" "shape m = [c, H, R, 1, T]" by blast
  have "shape x'' = [c, H, R, T]" by (rule squeeze_m2_shape5[OF c(2) sq])
  with t0 c(1) st' show ?thesis by blast
qed

lemma conve_before_bias_rounded_Inr:
  assumes "conve_before_bias_rounded rnd L Z h r t s = (Inr (x, t', n), s')"
  shows "\<exists>x0 B H R xin. conve_input Z h r t = Inr (x0, B, H, R, n)
           \<and> conve_matmul_rounded rnd Z B H R n xin t = Inr (x, t')"
  using assms unfolding conve_before_bias_rounded_def
  by (auto simp: bind_prog_Inr lift_result_Inr split: prod.splits)

lemma conve_body_rounded_Inr:
  "conve_body_rounded rnd L Z h r t t_bias s = (Inr y, s') \<longleftrightarrow>
     (\<exists>x t' n. conve_before_bias_rounded rnd L Z h r t s = (Inr (x, t', n), s')
        \<and> conve_add_bias_rounded rnd n x t' t_bias = Inr y)"
  by (auto simp: conve_body_rounded_split bind_prog_Inr lift_result_Inr)

lemma conve_add_bias_rounded_eq:
  assumes sx: "shape x = [c, H, R, T]" and st: "shape t' = [tb, 1, 1, e, T]"
  shows "conve_add_bias_rounded rnd T x t' t_bias =
     (if tb * T \<noteq> numel (shape t_bias) then
        Inl (runtime_error ''shape is invalid for input of this size'')
      else bind_result (broadcast_dim c tb) (\<lambda>c'.
        Inr (tabulate [c', H, R, T] (\<lambda>idx.
           rnd (entry x (broadcast_index [c, H, R, T] idx)
           + entry (t_bias\<lparr>shape := [tb, 1, 1, T]\<rparr>) (broadcast_index [tb, 1, 1, T] idx))))))"
  by (simp add: conve_add_bias_rounded_def shape_at_def st sx view_bias bind_result_def
      add_tensor_rounded_def broadcast_shapes4 split: sum.splits)

lemma shape_shift_rounded [simp]: "shape (shift_rounded rnd c x) = shape x"
  by (simp add: shift_rounded_def)

lemma entry_shift_rounded_view:
  assumes "wellformed x" "prod_list s = numel (shape x)" "valid_index s idx"
  shows "entry ((shift_rounded rnd c x)\<lparr>shape := s\<rparr>) idx = rnd (entry (x\<lparr>shape := s\<rparr>) idx + c)"
  using assms flat_index_less[OF assms(3)]
  by (simp add: entry_def shift_rounded_def map_tensor_def wellformed_def numel_def)

lemma conve_add_bias_rounded_shift:
  assumes sx: "shape x = [c, H, R, T]" and st: "shape t' = [tb, 1, 1, e, T]"
    and inv: "tb = c \<or> tb = 1"
    and wf: "wellformed t_bias"
    and run: "conve_add_bias_rounded rnd T x t' t_bias = Inr y"
  shows "tb * T = numel (shape t_bias)"
    and "y = tabulate [c, H, R, T] (\<lambda>idx.
           rnd (entry x idx
                + entry (t_bias\<lparr>shape := [tb, 1, 1, T]\<rparr>) [unit_axis_index tb (idx ! 0), 0, 0, idx ! 3]))"
    and "conve_add_bias_rounded rnd T x t' (shift_rounded rnd a t_bias)
       = Inr (tabulate [c, H, R, T] (\<lambda>idx.
           rnd (entry x idx
                + rnd (entry (t_bias\<lparr>shape := [tb, 1, 1, T]\<rparr>)
                         [unit_axis_index tb (idx ! 0), 0, 0, idx ! 3] + a))))"
proof -
  from run show n: "tb * T = numel (shape t_bias)"
    by (simp add: conve_add_bias_rounded_eq[OF sx st] split: if_splits)
  have c': "broadcast_dim c tb = Inr c"
    using inv by (auto simp: broadcast_dim_def)
  from run n have y: "y = tabulate [c, H, R, T] (\<lambda>idx.
           rnd (entry x (broadcast_index [c, H, R, T] idx)
           + entry (t_bias\<lparr>shape := [tb, 1, 1, T]\<rparr>) (broadcast_index [tb, 1, 1, T] idx)))"
    by (simp add: conve_add_bias_rounded_eq[OF sx st] c' bind_result_def)
  show "y = tabulate [c, H, R, T] (\<lambda>idx.
           rnd (entry x idx
                + entry (t_bias\<lparr>shape := [tb, 1, 1, T]\<rparr>) [unit_axis_index tb (idx ! 0), 0, 0, idx ! 3]))"
    unfolding y
  proof (rule tabulate4_cong)
    fix i j k l assume lt: "i < c" "j < H" "k < R" "l < T"
    show "rnd (entry x (broadcast_index [c, H, R, T] [i, j, k, l])
           + entry (t_bias\<lparr>shape := [tb, 1, 1, T]\<rparr>) (broadcast_index [tb, 1, 1, T] [i, j, k, l]))
       = rnd (entry x [i, j, k, l]
           + entry (t_bias\<lparr>shape := [tb, 1, 1, T]\<rparr>)
               [unit_axis_index tb ([i, j, k, l] ! 0), 0, 0, [i, j, k, l] ! 3])"
      using lt by (simp add: broadcast_index4_self broadcast_index4_bias)
  qed
  have "tabulate [c, H, R, T] (\<lambda>idx.
           rnd (entry x (broadcast_index [c, H, R, T] idx)
           + entry ((shift_rounded rnd a t_bias)\<lparr>shape := [tb, 1, 1, T]\<rparr>)
               (broadcast_index [tb, 1, 1, T] idx)))
      = tabulate [c, H, R, T] (\<lambda>idx.
           rnd (entry x idx
                + rnd (entry (t_bias\<lparr>shape := [tb, 1, 1, T]\<rparr>)
                         [unit_axis_index tb (idx ! 0), 0, 0, idx ! 3] + a)))"
  proof (rule tabulate4_cong)
    fix i j k l assume lt: "i < c" "j < H" "k < R" "l < T"
    have v: "valid_index [tb, 1, 1, T] [unit_axis_index tb i, 0, 0, l]"
      using broadcast_dim_index[OF c' lt(1)] lt(4) by simp
    have "entry ((shift_rounded rnd a t_bias)\<lparr>shape := [tb, 1, 1, T]\<rparr>) [unit_axis_index tb i, 0, 0, l]
          = rnd (entry (t_bias\<lparr>shape := [tb, 1, 1, T]\<rparr>) [unit_axis_index tb i, 0, 0, l] + a)"
      using n by (intro entry_shift_rounded_view[OF wf _ v]) simp
    then show "rnd (entry x (broadcast_index [c, H, R, T] [i, j, k, l])
           + entry ((shift_rounded rnd a t_bias)\<lparr>shape := [tb, 1, 1, T]\<rparr>)
               (broadcast_index [tb, 1, 1, T] [i, j, k, l]))
         = rnd (entry x [i, j, k, l]
                + rnd (entry (t_bias\<lparr>shape := [tb, 1, 1, T]\<rparr>)
                         [unit_axis_index tb ([i, j, k, l] ! 0), 0, 0, [i, j, k, l] ! 3] + a))"
      using lt by (simp add: broadcast_index4_self broadcast_index4_bias)
  qed
  then show "conve_add_bias_rounded rnd T x t' (shift_rounded rnd a t_bias)
       = Inr (tabulate [c, H, R, T] (\<lambda>idx.
           rnd (entry x idx
                + rnd (entry (t_bias\<lparr>shape := [tb, 1, 1, T]\<rparr>)
                         [unit_axis_index tb (idx ! 0), 0, 0, idx ! 3] + a))))"
    using n c' by (simp add: conve_add_bias_rounded_eq[OF sx st] bind_result_def)
qed

text \<open>
  C7, as amended. Let a call of \<^verbatim>\<open>conve_interaction\<close>, computing with the rounding \<open>rnd\<close>,
  return \<open>y\<close>, where the leading extent of \<open>t\<close> is the batch size \<open>B\<close> (the largest leading
  extent of \<open>h\<close>, \<open>r\<close>, \<open>t\<close>) or 1, and \<open>t_bias\<close> is well formed. Then \<open>y\<close> has shape
  \<open>(B, num_heads, num_relations, num_tails)\<close>, and \<open>y\<close> is the rounded sum of the product \<open>x\<close>
  before the bias and of \<open>t_bias\<close> reshaped to \<open>(t.shape[0], 1, 1, num_tails)\<close>, broadcast
  across heads and relations, and across the batch as well when \<open>t.shape[0]\<close> is 1. The
  same call with \<open>c\<close> added to every entry of \<open>t_bias\<close> returns a tensor \<open>y'\<close> of the same
  shape and leaves the same state; its entry is \<open>rnd (x + rnd (b + c))\<close> where that of \<open>y\<close>
  is \<open>rnd (x + b)\<close>. It is the entry of \<open>y\<close> plus \<open>c\<close> wherever the three sums \<open>b + c\<close>,
  \<open>x + b\<close> and \<open>x + (b + c)\<close> are exact, so everywhere in exact arithmetic, where \<open>y'\<close> is
  \<open>shift c y\<close>. Two parts of the claim fail (the counterexample). The reshape is to the
  leading extent of \<open>t\<close>, not to the batch size: with \<open>t\<close> of leading extent 1 in a batch
  of 2, a bias of \<open>(2, 1)\<close> entries is rejected and one of \<open>(1, 1)\<close> entries is accepted.
  And the shift is not exact in float32: with \<open>x = 16777216\<close>, \<open>b = 0\<close> and \<open>c = 1\<close> the
  score is \<open>16777216\<close> with and without the shift.
\<close>

theorem conve_shape_and_rounded_bias:
  assumes run: "conve_interaction_rounded rnd is_cudnn_error L Z h r t t_bias s = (Inr y, s')"
    and wf: "wellformed t_bias"
    and B: "B = max (shape h ! 0) (max (shape r ! 0) (shape t ! 0))"
    and inv: "shape t ! 0 = B \<or> shape t ! 0 = 1"
  shows "shape y = [B, shape h ! 1, shape r ! 1, shape t ! 1]
       \<and> (\<exists>x t' b y'. conve_before_bias_rounded rnd L Z h r t s = (Inr (x, t', shape t ! 1), s')
             \<and> shape x = [B, shape h ! 1, shape r ! 1, shape t ! 1]
             \<and> view t_bias [int (shape t ! 0), 1, 1, int (shape t ! 1)] = Inr b
             \<and> shape b = [shape t ! 0, 1, 1, shape t ! 1]
             \<and> conve_interaction_rounded rnd is_cudnn_error L Z h r t (shift_rounded rnd c t_bias) s
                 = (Inr y', s')
             \<and> shape y' = [B, shape h ! 1, shape r ! 1, shape t ! 1]
             \<and> (\<forall>i<B. \<forall>j<shape h ! 1. \<forall>k<shape r ! 1. \<forall>l<shape t ! 1.
                   entry y [i, j, k, l]
                     = rnd (entry x [i, j, k, l] + entry b [unit_axis_index (shape t ! 0) i, 0, 0, l])
                 \<and> entry y' [i, j, k, l]
                     = rnd (entry x [i, j, k, l]
                            + rnd (entry b [unit_axis_index (shape t ! 0) i, 0, 0, l] + c))
                 \<and> (rnd (entry b [unit_axis_index (shape t ! 0) i, 0, 0, l] + c)
                       = entry b [unit_axis_index (shape t ! 0) i, 0, 0, l] + c
                     \<and> rnd (entry x [i, j, k, l] + entry b [unit_axis_index (shape t ! 0) i, 0, 0, l])
                       = entry x [i, j, k, l] + entry b [unit_axis_index (shape t ! 0) i, 0, 0, l]
                     \<and> rnd (entry x [i, j, k, l]
                            + (entry b [unit_axis_index (shape t ! 0) i, 0, 0, l] + c))
                       = entry x [i, j, k, l]
                            + (entry b [unit_axis_index (shape t ! 0) i, 0, 0, l] + c)
                     \<longrightarrow> entry y' [i, j, k, l] = entry y [i, j, k, l] + c))
             \<and> ((\<forall>v. rnd v = v) \<longrightarrow> y' = shift c y))"
proof -
  define H where "H = shape h ! 1"
  define R where "R = shape r ! 1"
  define T where "T = shape t ! 1"
  define tb where "tb = shape t ! 0"
  from run have body: "conve_body_rounded rnd L Z h r t t_bias s = (Inr y, s')"
    by (simp add: conve_interaction_rounded_Inr_iff)
  then obtain x t' n where
    pre0: "conve_before_bias_rounded rnd L Z h r t s = (Inr (x, t', n), s')"
    and add0: "conve_add_bias_rounded rnd n x t' t_bias = Inr y"
    by (auto simp: conve_body_rounded_Inr)
  from conve_before_bias_rounded_Inr[OF pre0] obtain x0 B' H' R' xin where
    inp: "conve_input Z h r t = Inr (x0, B', H', R', n)"
    and mm: "conve_matmul_rounded rnd Z B' H' R' n xin t = Inr (x, t')"
    by blast
  from conve_input_sizes[OF inp] B have sz: "B' = B" "H' = H" "R' = R" "n = T"
    by (simp_all add: H_def R_def T_def)
  have pre: "conve_before_bias_rounded rnd L Z h r t s = (Inr (x, t', T), s')"
    and add: "conve_add_bias_rounded rnd T x t' t_bias = Inr y"
    using pre0 add0 sz(4) by simp_all
  from conve_matmul_rounded_shape[OF mm] obtain c0 e where
    c0: "broadcast_dim B tb = Inr c0" and sx0: "shape x = [c0, H, R, T]"
    and st: "shape t' = [tb, 1, 1, e, T]"
    by (auto simp: sz tb_def)
  have inv': "tb = B \<or> tb = 1" using inv by (simp add: tb_def)
  have "c0 = B" by (rule broadcast_dim_batch[OF c0 inv'])
  then have sx: "shape x = [B, H, R, T]" using sx0 by simp
  define b where "b = t_bias\<lparr>shape := [tb, 1, 1, T]\<rparr>"
  define y' where "y' = tabulate [B, H, R, T] (\<lambda>idx.
           rnd (entry x idx + rnd (entry b [unit_axis_index tb (idx ! 0), 0, 0, idx ! 3] + c)))"
  note facts = conve_add_bias_rounded_shift[OF sx st inv' wf add]
  have n: "tb * T = numel (shape t_bias)" by (rule facts(1))
  have y: "y = tabulate [B, H, R, T] (\<lambda>idx.
           rnd (entry x idx + entry b [unit_axis_index tb (idx ! 0), 0, 0, idx ! 3]))"
    unfolding b_def by (rule facts(2))
  have "conve_add_bias_rounded rnd T x t' (shift_rounded rnd c t_bias) = Inr y'"
    unfolding y'_def b_def by (rule facts(3))
  then have "conve_body_rounded rnd L Z h r t (shift_rounded rnd c t_bias) s = (Inr y', s')"
    using pre by (auto simp: conve_body_rounded_Inr)
  then have shifted:
    "conve_interaction_rounded rnd is_cudnn_error L Z h r t (shift_rounded rnd c t_bias) s
       = (Inr y', s')"
    by (simp add: conve_interaction_rounded_Inr_iff)
  have shape_y: "shape y = [B, H, R, T]" by (simp add: y)
  have shape_y': "shape y' = [B, H, R, T]" by (simp add: y'_def)
  have vb: "view t_bias [int tb, 1, 1, int T] = Inr b"
    using n by (simp add: view_bias b_def)
  have sb: "shape b = [tb, 1, 1, T]" by (simp add: b_def)
  have ent: "entry y [i, j, k, l]
               = rnd (entry x [i, j, k, l] + entry b [unit_axis_index tb i, 0, 0, l])"
    and ent': "entry y' [i, j, k, l]
               = rnd (entry x [i, j, k, l] + rnd (entry b [unit_axis_index tb i, 0, 0, l] + c))"
    if "i < B" "j < H" "k < R" "l < T" for i j k l
  proof -
    have v: "valid_index [B, H, R, T] [i, j, k, l]" using that by simp
    show "entry y [i, j, k, l]
               = rnd (entry x [i, j, k, l] + entry b [unit_axis_index tb i, 0, 0, l])"
      unfolding y by (simp add: entry_tabulate[OF v])
    show "entry y' [i, j, k, l]
               = rnd (entry x [i, j, k, l] + rnd (entry b [unit_axis_index tb i, 0, 0, l] + c))"
      unfolding y'_def by (simp add: entry_tabulate[OF v])
  qed
  have exact: "y' = shift c y" if "\<forall>v. rnd v = v"
    using that by (simp add: y y'_def shift_tabulate add.assoc)
  have entries: "\<forall>i<B. \<forall>j<H. \<forall>k<R. \<forall>l<T.
                   entry y [i, j, k, l]
                     = rnd (entry x [i, j, k, l] + entry b [unit_axis_index tb i, 0, 0, l])
                 \<and> entry y' [i, j, k, l]
                     = rnd (entry x [i, j, k, l]
                            + rnd (entry b [unit_axis_index tb i, 0, 0, l] + c))
                 \<and> (rnd (entry b [unit_axis_index tb i, 0, 0, l] + c)
                       = entry b [unit_axis_index tb i, 0, 0, l] + c
                     \<and> rnd (entry x [i, j, k, l] + entry b [unit_axis_index tb i, 0, 0, l])
                       = entry x [i, j, k, l] + entry b [unit_axis_index tb i, 0, 0, l]
                     \<and> rnd (entry x [i, j, k, l]
                            + (entry b [unit_axis_index tb i, 0, 0, l] + c))
                       = entry x [i, j, k, l]
                            + (entry b [unit_axis_index tb i, 0, 0, l] + c)
                     \<longrightarrow> entry y' [i, j, k, l] = entry y [i, j, k, l] + c)"
    by (simp add: ent ent')
  have "\<exists>x t' b y'. conve_before_bias_rounded rnd L Z h r t s = (Inr (x, t', T), s')
             \<and> shape x = [B, H, R, T]
             \<and> view t_bias [int tb, 1, 1, int T] = Inr b
             \<and> shape b = [tb, 1, 1, T]
             \<and> conve_interaction_rounded rnd is_cudnn_error L Z h r t (shift_rounded rnd c t_bias) s
                 = (Inr y', s')
             \<and> shape y' = [B, H, R, T]
             \<and> (\<forall>i<B. \<forall>j<H. \<forall>k<R. \<forall>l<T.
                   entry y [i, j, k, l]
                     = rnd (entry x [i, j, k, l] + entry b [unit_axis_index tb i, 0, 0, l])
                 \<and> entry y' [i, j, k, l]
                     = rnd (entry x [i, j, k, l]
                            + rnd (entry b [unit_axis_index tb i, 0, 0, l] + c))
                 \<and> (rnd (entry b [unit_axis_index tb i, 0, 0, l] + c)
                       = entry b [unit_axis_index tb i, 0, 0, l] + c
                     \<and> rnd (entry x [i, j, k, l] + entry b [unit_axis_index tb i, 0, 0, l])
                       = entry x [i, j, k, l] + entry b [unit_axis_index tb i, 0, 0, l]
                     \<and> rnd (entry x [i, j, k, l]
                            + (entry b [unit_axis_index tb i, 0, 0, l] + c))
                       = entry x [i, j, k, l]
                            + (entry b [unit_axis_index tb i, 0, 0, l] + c)
                     \<longrightarrow> entry y' [i, j, k, l] = entry y [i, j, k, l] + c))
             \<and> ((\<forall>v. rnd v = v) \<longrightarrow> y' = shift c y)"
    using pre sx vb sb shifted shape_y' entries exact by blast
  with shape_y show ?thesis
    unfolding H_def R_def T_def tb_def by blast
qed

theorem conve_shape_and_rounded_bias_witness:
  "conve_interaction_rounded (\<lambda>x. x) (\<lambda>e s. (False, s)) (example_layers identity_layer)
      example_sizes
      \<lparr>shape = [1, 2, 1], data = [1, 2]\<rparr> \<lparr>shape = [2, 1, 1], data = [10, 20]\<rparr>
      \<lparr>shape = [2, 3, 1], data = [1, 2, 3, 4, 5, 6]\<rparr>
      (shift_rounded (\<lambda>x. x) 5 \<lparr>shape = [2, 3], data = [100, 200, 300, 400, 500, 600]\<rparr>) ()
   = (Inr \<lparr>shape = [2, 2, 1, 3],
           data = [116, 227, 338, 117, 229, 341, 489, 610, 731, 493, 615, 737]\<rparr>, ())
   \<and> (\<exists>y'. conve_interaction_rounded round_float32 (\<lambda>e s. (False, s))
        (example_layers identity_layer) example_sizes
        \<lparr>shape = [1, 2, 1], data = [1, 2]\<rparr> \<lparr>shape = [2, 1, 1], data = [10, 20]\<rparr>
        \<lparr>shape = [2, 3, 1], data = [1, 2, 3, 4, 5, 6]\<rparr>
        (shift_rounded round_float32 5
           \<lparr>shape = [2, 3], data = [100, 200, 300, 400, 500, 600]\<rparr>) ()
      = (Inr y', ()) \<and> shape y' = [2, 2, 1, 3])"
proof -
  let ?h = "\<lparr>shape = [1, 2, 1], data = [1, 2]\<rparr>"
  let ?r = "\<lparr>shape = [2, 1, 1], data = [10, 20]\<rparr>"
  let ?t = "\<lparr>shape = [2, 3, 1], data = [1, 2, 3, 4, 5, 6]\<rparr>"
  let ?bias = "\<lparr>shape = [2, 3], data = [100, 200, 300, 400, 500, 600]\<rparr>"
  let ?y = "\<lparr>shape = [2, 2, 1, 3],
           data = [111, 222, 333, 112, 224, 336, 484, 605, 726, 488, 610, 732]\<rparr>"
  have run: "conve_interaction_rounded (\<lambda>x. x) (\<lambda>e s. (False, s)) (example_layers identity_layer)
      example_sizes ?h ?r ?t ?bias () = (Inr ?y, ())"
    by code_simp
  have run32: "conve_interaction_rounded round_float32 (\<lambda>e s. (False, s))
      (example_layers identity_layer) example_sizes ?h ?r ?t ?bias () = (Inr ?y, ())"
    by code_simp
  have wf: "wellformed ?bias" by (simp add: wellformed_def)
  have B: "(2::nat) = max (shape ?h ! 0) (max (shape ?r ! 0) (shape ?t ! 0))" by simp
  have inv: "shape ?t ! 0 = 2 \<or> shape ?t ! 0 = 1" by simp
  from conve_shape_and_rounded_bias [OF run wf B inv, of 5]
  have a: "conve_interaction_rounded (\<lambda>x. x) (\<lambda>e s. (False, s)) (example_layers identity_layer)
      example_sizes ?h ?r ?t (shift_rounded (\<lambda>x. x) 5 ?bias) ()
   = (Inr \<lparr>shape = [2, 2, 1, 3],
           data = [116, 227, 338, 117, 229, 341, 489, 610, 731, 493, 615, 737]\<rparr>, ())"
    by (auto simp: shift_def map_tensor_def)
  from conve_shape_and_rounded_bias [OF run32 wf B inv, of 5]
  have b: "\<exists>y'. conve_interaction_rounded round_float32 (\<lambda>e s. (False, s))
        (example_layers identity_layer) example_sizes ?h ?r ?t
        (shift_rounded round_float32 5 ?bias) ()
      = (Inr y', ()) \<and> shape y' = [2, 2, 1, 3]"
    by auto
  from a b show ?thesis by blast
qed

theorem conve_bias_counterexample:
  "conve_interaction_rounded round_float32 (\<lambda>e s. (False, s)) (example_layers identity_layer)
      example_sizes
      \<lparr>shape = [2, 1, 1], data = [1, 2]\<rparr> \<lparr>shape = [2, 1, 1], data = [10, 20]\<rparr>
      \<lparr>shape = [1, 1, 1], data = [3]\<rparr> \<lparr>shape = [2, 1], data = [100, 200]\<rparr> ()
     = (Inl (runtime_error ''shape is invalid for input of this size''), ())
   \<and> view \<lparr>shape = [2, 1], data = [100, 200]\<rparr> [2, 1, 1, 1]
     = Inr \<lparr>shape = [2, 1, 1, 1], data = [100, 200]\<rparr>
   \<and> conve_interaction_rounded round_float32 (\<lambda>e s. (False, s)) (example_layers identity_layer)
      example_sizes
      \<lparr>shape = [2, 1, 1], data = [1, 2]\<rparr> \<lparr>shape = [2, 1, 1], data = [10, 20]\<rparr>
      \<lparr>shape = [1, 1, 1], data = [3]\<rparr> \<lparr>shape = [1, 1], data = [100]\<rparr> ()
     = (Inr \<lparr>shape = [2, 1, 1, 1], data = [133, 166]\<rparr>, ())
   \<and> view \<lparr>shape = [1, 1], data = [100]\<rparr> [2, 1, 1, 1]
     = Inl (runtime_error ''shape is invalid for input of this size'')
   \<and> conve_interaction_rounded round_float32 (\<lambda>e s. (False, s)) (example_layers identity_layer)
      example_sizes
      \<lparr>shape = [1, 1, 1], data = [16777216]\<rparr> \<lparr>shape = [1, 1, 1], data = [0]\<rparr>
      \<lparr>shape = [1, 1, 1], data = [1]\<rparr> \<lparr>shape = [1, 1], data = [0]\<rparr> ()
     = (Inr \<lparr>shape = [1, 1, 1, 1], data = [16777216]\<rparr>, ())
   \<and> shift_rounded round_float32 1 \<lparr>shape = [1, 1], data = [0]\<rparr>
     = \<lparr>shape = [1, 1], data = [1]\<rparr>
   \<and> conve_interaction_rounded round_float32 (\<lambda>e s. (False, s)) (example_layers identity_layer)
      example_sizes
      \<lparr>shape = [1, 1, 1], data = [16777216]\<rparr> \<lparr>shape = [1, 1, 1], data = [0]\<rparr>
      \<lparr>shape = [1, 1, 1], data = [1]\<rparr>
      (shift_rounded round_float32 1 \<lparr>shape = [1, 1], data = [0]\<rparr>) ()
     = (Inr \<lparr>shape = [1, 1, 1, 1], data = [16777216]\<rparr>, ())"
  by code_simp

end
